theory Spec2Isabelle
  imports Main "HOL-Library.AList" "HOL-Library.Sublist"
begin

section \<open>Data model (types.ts)\<close>

text \<open>
  The records follow the interfaces of \<^verbatim>\<open>types.ts\<close>. Field names carry the name of
  their interface as a prefix (\<^verbatim>\<open>User.id\<close> is \<open>user_id\<close>, \<^verbatim>\<open>Team.id\<close> is \<open>team_id\<close>),
  because several interfaces share the field names \<^verbatim>\<open>id\<close>, \<^verbatim>\<open>name\<close>, \<^verbatim>\<open>skills\<close>,
  \<^verbatim>\<open>interests\<close> and \<^verbatim>\<open>teamId\<close>.
\<close>

text \<open>\<^verbatim>\<open>teamStatus: 'Looking for a team' | 'In a team'\<close>\<close>

datatype team_status = LookingForATeam | InATeam

text \<open>\<^verbatim>\<open>teamId?: string | null\<close>: the field is absent, null, or a team id.\<close>

datatype team_ref = Undefined | Null | TeamRef string

record user =
  user_id :: string
  user_name :: string
  user_avatarInitial :: string
  user_title :: string
  user_year :: int
  user_about :: string
  user_email :: string
  user_department :: string
  user_interests :: "string list"
  user_skills :: "string list"
  user_workingPreferences :: "string list"
  user_teamStatus :: team_status
  user_profileComplete :: "bool option"
  user_teamId :: team_ref
  user_isTeamOwner :: "bool option"

text \<open>\<^verbatim>\<open>status: 'pending'\<close> is the only invitation status of the source.\<close>

datatype invitation_status = Pending

record from_user =
  from_id :: string
  from_name :: string

text \<open>The stored invitation document is \<^verbatim>\<open>Omit<Invitation, 'id'>\<close>; its id is the document key.\<close>

record invitation =
  inv_teamId :: string
  inv_teamName :: string
  inv_fromUser :: from_user
  inv_toUserId :: string
  inv_status :: invitation_status
  inv_createdAt :: nat

record team =
  team_id :: string
  team_name :: string
  team_ownerId :: string
  team_members :: "user list"
  team_skills :: "string list"
  team_interests :: "string list"

record conversation_participant =
  cp_id :: string
  cp_name :: string
  cp_avatarInitial :: string

record last_message =
  lm_text :: string
  lm_timestamp :: nat
  lm_senderId :: string

record conversation =
  conv_participants :: "(string \<times> conversation_participant) list"
  conv_participantIds :: "string list"
  conv_lastMessage :: "last_message option"
  conv_isGroupChat :: "bool option"
  conv_groupName :: "string option"
  conv_teamId :: "string option"

text \<open>
  The result of \<^verbatim>\<open>getRecommendedTeams\<close>: \<^verbatim>\<open>{ ...team, score, commonSkills, commonInterests }\<close>.
\<close>

record scored_team = team +
  score :: nat
  commonSkills :: "string list"
  commonInterests :: "string list"

section \<open>The document store (firebase/firestore)\<close>

text \<open>
  The four collections the service touches. A collection is an association list from
  document ids to documents; its order is the order in which a query over the whole
  collection delivers the documents.
\<close>

record db =
  users :: "(string \<times> user) list"
  teams :: "(string \<times> team) list"
  conversations :: "(string \<times> conversation) list"
  invitations :: "(string \<times> invitation) list"

text \<open>
  Every \<^verbatim>\<open>throw new Error(...)\<close> of the service is a constructor; \<open>FirestoreNotFound\<close>
  is the rejection of an \<^verbatim>\<open>update\<close> whose document does not exist.
\<close>

datatype error =
    NoAuthenticatedUser
  | OwnerMustTransferBeforeLeaving
  | OwnerMustTransferBeforeDeleting
  | InvitationAlreadyExists
  | InvitationNotFound
  | TeamNotFound
  | FirestoreNotFound

definition getDoc :: "('k \<times> 'v) list \<Rightarrow> 'k \<Rightarrow> 'v option" where
  "getDoc c k = map_of c k"

definition setDoc :: "('k \<times> 'v) list \<Rightarrow> 'k \<Rightarrow> 'v \<Rightarrow> ('k \<times> 'v) list" where
  "setDoc c k v = AList.update k v c"

definition deleteDoc :: "('k \<times> 'v) list \<Rightarrow> 'k \<Rightarrow> ('k \<times> 'v) list" where
  "deleteDoc c k = AList.delete k c"

text \<open>\<^verbatim>\<open>updateDoc\<close> fails when the document does not exist.\<close>

definition updateDoc :: "('k \<times> 'v) list \<Rightarrow> 'k \<Rightarrow> ('v \<Rightarrow> 'v) \<Rightarrow> ('k \<times> 'v) list option" where
  "updateDoc c k f = (case map_of c k of None \<Rightarrow> None | Some v \<Rightarrow> Some (AList.update k (f v) c))"

text \<open>\<^verbatim>\<open>arrayUnion(x)\<close> adds \<open>x\<close> unless an equal element is present; \<^verbatim>\<open>arrayRemove(x)\<close>
  removes every element equal to \<open>x\<close>.\<close>

definition arrayUnion :: "'a \<Rightarrow> 'a list \<Rightarrow> 'a list" where
  "arrayUnion x xs = (if x \<in> set xs then xs else xs @ [x])"

definition arrayRemove :: "'a \<Rightarrow> 'a list \<Rightarrow> 'a list" where
  "arrayRemove x xs = removeAll x xs"

text \<open>The operations of a write batch, on the collections the service writes.\<close>

datatype batch_write =
    SetTeam string team
  | SetConversation string conversation
  | UpdateUser string "user \<Rightarrow> user"
  | UpdateTeam string "team \<Rightarrow> team"
  | UpdateConversation string "conversation \<Rightarrow> conversation"
  | DeleteTeam string
  | DeleteConversation string
  | DeleteInvitation string

fun apply_write :: "batch_write \<Rightarrow> db \<Rightarrow> db option" where
  "apply_write (SetTeam k t) d = Some (d\<lparr>teams := setDoc (teams d) k t\<rparr>)"
| "apply_write (SetConversation k c) d = Some (d\<lparr>conversations := setDoc (conversations d) k c\<rparr>)"
| "apply_write (UpdateUser k f) d =
     (case updateDoc (users d) k f of None \<Rightarrow> None | Some us \<Rightarrow> Some (d\<lparr>users := us\<rparr>))"
| "apply_write (UpdateTeam k f) d =
     (case updateDoc (teams d) k f of None \<Rightarrow> None | Some ts \<Rightarrow> Some (d\<lparr>teams := ts\<rparr>))"
| "apply_write (UpdateConversation k f) d =
     (case updateDoc (conversations d) k f of None \<Rightarrow> None
      | Some cs \<Rightarrow> Some (d\<lparr>conversations := cs\<rparr>))"
| "apply_write (DeleteTeam k) d = Some (d\<lparr>teams := deleteDoc (teams d) k\<rparr>)"
| "apply_write (DeleteConversation k) d = Some (d\<lparr>conversations := deleteDoc (conversations d) k\<rparr>)"
| "apply_write (DeleteInvitation k) d = Some (d\<lparr>invitations := deleteDoc (invitations d) k\<rparr>)"

fun apply_writes :: "batch_write list \<Rightarrow> db \<Rightarrow> db option" where
  "apply_writes [] d = Some d"
| "apply_writes (w # ws) d =
     (case apply_write w d of None \<Rightarrow> None | Some d' \<Rightarrow> apply_writes ws d')"

text \<open>\<^verbatim>\<open>batch.commit()\<close>: all writes are applied, or none is and the commit rejects.\<close>

definition commit :: "batch_write list \<Rightarrow> db \<Rightarrow> (error + unit) \<times> db" where
  "commit batch d =
     (case apply_writes batch d of None \<Rightarrow> (Inl FirestoreNotFound, d) | Some d' \<Rightarrow> (Inr (), d'))"

section \<open>JavaScript helpers\<close>

text \<open>\<^verbatim>\<open>Array.from(new Set(xs))\<close>: the elements of \<open>xs\<close> in the order of their first
  occurrence (a \<^verbatim>\<open>Set\<close> keeps insertion order and ignores a value it already holds).\<close>

fun set_add_all :: "'a list \<Rightarrow> 'a list \<Rightarrow> 'a list" where
  "set_add_all acc [] = acc"
| "set_add_all acc (x # xs) = (if x \<in> set acc then set_add_all acc xs else set_add_all (acc @ [x]) xs)"

definition array_from_set :: "'a list \<Rightarrow> 'a list" where
  "array_from_set xs = set_add_all [] xs"

text \<open>\<^verbatim>\<open>xs.flatMap(f)\<close>\<close>

definition flatMap :: "('a \<Rightarrow> 'b list) \<Rightarrow> 'a list \<Rightarrow> 'b list" where
  "flatMap f xs = concat (map f xs)"

text \<open>\<^verbatim>\<open>s.toLowerCase()\<close> on the ASCII letters; every other character is kept.\<close>

definition toLowerChar :: "char \<Rightarrow> char" where
  "toLowerChar c =
     (case map_of (zip ''ABCDEFGHIJKLMNOPQRSTUVWXYZ'' ''abcdefghijklmnopqrstuvwxyz'') c of
        None \<Rightarrow> c
      | Some l \<Rightarrow> l)"

definition toLowerCase :: "string \<Rightarrow> string" where
  "toLowerCase s = map toLowerChar s"

text \<open>\<^verbatim>\<open>s.includes(t)\<close>\<close>

definition str_includes :: "string \<Rightarrow> string \<Rightarrow> bool" where
  "str_includes s t = sublist t s"

text \<open>Truthiness of an optional string (\<^verbatim>\<open>if (filters.name)\<close>) and of \<^verbatim>\<open>user.teamId\<close>.\<close>

fun truthy :: "string option \<Rightarrow> bool" where
  "truthy None = False"
| "truthy (Some s) = (s \<noteq> [])"

fun truthy_ref :: "team_ref \<Rightarrow> bool" where
  "truthy_ref (TeamRef s) = (s \<noteq> [])"
| "truthy_ref _ = False"

section \<open>services/apiService.ts\<close>

text \<open>The profile fields every leave path writes:
  \<^verbatim>\<open>{ teamId: null, isTeamOwner: false, teamStatus: 'Looking for a team' }\<close>.\<close>

definition clearTeamFields :: "user \<Rightarrow> user" where
  "clearTeamFields u = u\<lparr>user_teamId := Null, user_isTeamOwner := Some False,
     user_teamStatus := LookingForATeam\<rparr>"

text \<open>\<^verbatim>\<open>`team_${teamId}`\<close>\<close>

definition teamConversationId :: "string \<Rightarrow> string" where
  "teamConversationId teamId = ''team_'' @ teamId"

text \<open>\<^verbatim>\<open>{ ...user }\<close> with \<^verbatim>\<open>profileComplete\<close> deleted.\<close>

definition asMember :: "user \<Rightarrow> user" where
  "asMember u = u\<lparr>user_profileComplete := None\<rparr>"

subsection \<open>createTeam\<close>

text \<open>\<open>newId\<close> is the id \<^verbatim>\<open>doc(collection(db, 'teams'))\<close> generates.\<close>

definition newTeam :: "string \<Rightarrow> string \<Rightarrow> user \<Rightarrow> team" where
  "newTeam newId teamName owner =
     \<lparr>team_id = newId, team_name = teamName, team_ownerId = user_id owner,
      team_members = [asMember owner], team_skills = user_skills owner,
      team_interests = user_interests owner\<rparr>"

definition createTeam :: "string \<Rightarrow> string \<Rightarrow> user \<Rightarrow> db \<Rightarrow> (error + team) \<times> db" where
  "createTeam newId teamName owner d =
     (let t = newTeam newId teamName owner;
          participants = [(user_id owner,
             \<lparr>cp_id = user_id owner, cp_name = user_name owner,
              cp_avatarInitial = user_avatarInitial owner\<rparr>)];
          batch =
            [SetTeam newId t,
             UpdateUser (user_id owner)
               (\<lambda>u. u\<lparr>user_teamId := TeamRef newId, user_isTeamOwner := Some True,
                       user_teamStatus := InATeam\<rparr>),
             SetConversation (teamConversationId newId)
               \<lparr>conv_participants = participants, conv_participantIds = [user_id owner],
                conv_lastMessage = None, conv_isGroupChat = Some True,
                conv_groupName = Some teamName, conv_teamId = Some newId\<rparr>]
      in case commit batch d of
           (Inl e, d') \<Rightarrow> (Inl e, d')
         | (Inr _, d') \<Rightarrow> (Inr t, d'))"

subsection \<open>leaveTeam\<close>

definition leaveTeam :: "user \<Rightarrow> string \<Rightarrow> db \<Rightarrow> (error + unit) \<times> db" where
  "leaveTeam u teamId d =
     (case getDoc (teams d) teamId of
        None \<Rightarrow>
          (case updateDoc (users d) (user_id u) clearTeamFields of
             None \<Rightarrow> (Inl FirestoreNotFound, d)
           | Some us \<Rightarrow> (Inr (), d\<lparr>users := us\<rparr>))
      | Some t \<Rightarrow>
          if user_id u = team_ownerId t then
            if length (team_members t) > 1 then (Inl OwnerMustTransferBeforeLeaving, d)
            else commit
              [DeleteTeam teamId,
               DeleteConversation (teamConversationId teamId),
               UpdateUser (user_id u) clearTeamFields] d
          else
            (let updatedMembers = filter (\<lambda>m. user_id m \<noteq> user_id u) (team_members t);
                 updatedSkills = array_from_set (flatMap user_skills updatedMembers);
                 updatedInterests = array_from_set (flatMap user_interests updatedMembers)
             in commit
              [UpdateTeam teamId
                 (\<lambda>t'. t'\<lparr>team_members := updatedMembers, team_skills := updatedSkills,
                          team_interests := updatedInterests\<rparr>),
               UpdateConversation (teamConversationId teamId)
                 (\<lambda>c. c\<lparr>conv_participantIds := arrayRemove (user_id u) (conv_participantIds c)\<rparr>),
               UpdateUser (user_id u) clearTeamFields] d))"

subsection \<open>sendInvitation\<close>

text \<open>The query of \<^verbatim>\<open>sendInvitation\<close>: the pending invitations of a team to a recipient.\<close>

definition existingInvites :: "db \<Rightarrow> string \<Rightarrow> string \<Rightarrow> (string \<times> invitation) list" where
  "existingInvites d teamId toUserId =
     filter (\<lambda>(k, i). inv_teamId i = teamId \<and> inv_toUserId i = toUserId \<and> inv_status i = Pending)
       (invitations d)"

text \<open>\<open>newId\<close> is the id \<^verbatim>\<open>addDoc\<close> generates, \<open>now\<close> is \<^verbatim>\<open>Timestamp.now()\<close>.\<close>

definition sendInvitation ::
  "string \<Rightarrow> nat \<Rightarrow> team \<Rightarrow> user \<Rightarrow> user \<Rightarrow> db \<Rightarrow> (error + unit) \<times> db" where
  "sendInvitation newId now t fromUser toUser d =
     (if existingInvites d (team_id t) (user_id toUser) \<noteq> [] then (Inl InvitationAlreadyExists, d)
      else
        (let newInvitation =
           \<lparr>inv_teamId = team_id t, inv_teamName = team_name t,
            inv_fromUser = \<lparr>from_id = user_id fromUser, from_name = user_name fromUser\<rparr>,
            inv_toUserId = user_id toUser, inv_status = Pending, inv_createdAt = now\<rparr>
         in (Inr (), d\<lparr>invitations := setDoc (invitations d) newId newInvitation\<rparr>)))"

subsection \<open>handleInvitation\<close>

definition handleInvitation :: "string \<Rightarrow> bool \<Rightarrow> user \<Rightarrow> db \<Rightarrow> (error + unit) \<times> db" where
  "handleInvitation invitationId accepted u d =
     (case getDoc (invitations d) invitationId of
        None \<Rightarrow> (Inl InvitationNotFound, d)
      | Some invitation \<Rightarrow>
          if accepted then
            (case getDoc (teams d) (inv_teamId invitation) of
               None \<Rightarrow> (Inl TeamNotFound, d)
             | Some teamData \<Rightarrow>
                 (let userForTeam = asMember u;
                      newSkills = array_from_set (team_skills teamData @ user_skills u);
                      newInterests = array_from_set (team_interests teamData @ user_interests u);
                      newParticipant =
                        \<lparr>cp_id = user_id u, cp_name = user_name u,
                         cp_avatarInitial = user_avatarInitial u\<rparr>
                  in commit
                    [UpdateUser (user_id u)
                       (\<lambda>p. p\<lparr>user_teamId := TeamRef (inv_teamId invitation), user_teamStatus := InATeam\<rparr>),
                     UpdateTeam (inv_teamId invitation)
                       (\<lambda>t. t\<lparr>team_members := arrayUnion userForTeam (team_members t),
                               team_skills := newSkills, team_interests := newInterests\<rparr>),
                     UpdateConversation (teamConversationId (inv_teamId invitation))
                       (\<lambda>c. c\<lparr>conv_participantIds := arrayUnion (user_id u) (conv_participantIds c),
                               conv_participants :=
                                 AList.update (user_id u) newParticipant (conv_participants c)\<rparr>),
                     DeleteInvitation invitationId] d))
          else commit [DeleteInvitation invitationId] d)"

subsection \<open>getRecommendedTeams\<close>

definition scoreTeam :: "user \<Rightarrow> team \<Rightarrow> scored_team" where
  "scoreTeam currentUser t =
     (let userSkills = array_from_set (user_skills currentUser);
          userInterests = array_from_set (user_interests currentUser);
          cs = filter (\<lambda>skill. skill \<in> set (team_skills t)) userSkills;
          ci = filter (\<lambda>interest. interest \<in> set (team_interests t)) userInterests
      in \<lparr>team_id = team_id t, team_name = team_name t, team_ownerId = team_ownerId t,
          team_members = team_members t, team_skills = team_skills t,
          team_interests = team_interests t,
          score = length cs * 2 + length ci, commonSkills = cs, commonInterests = ci\<rparr>)"

text \<open>The teams the query and the membership filter keep, in the order of the query.\<close>

definition allTeams :: "user \<Rightarrow> db \<Rightarrow> team list" where
  "allTeams currentUser d =
     filter (\<lambda>t. \<not> (\<exists>member \<in> set (team_members t). user_id member = user_id currentUser))
       (filter (\<lambda>t. team_ownerId t \<noteq> user_id currentUser) (map snd (teams d)))"

text \<open>\<^verbatim>\<open>.sort((a, b) => b.score - a.score)\<close> is a stable sort on the score, descending.\<close>

definition getRecommendedTeams :: "user \<Rightarrow> db \<Rightarrow> scored_team list" where
  "getRecommendedTeams currentUser d =
     sort_key (\<lambda>t. - int (score t))
       (filter (\<lambda>t. score t > 0) (map (scoreTeam currentUser) (allTeams currentUser d)))"

subsection \<open>searchUsers\<close>

record filters =
  f_name :: "string option"
  f_skill :: "string option"
  f_interest :: "string option"
  f_availability :: "string option"

text \<open>The \<^verbatim>\<open>where\<close> clauses of the query, as one predicate on a user document.
  \<^verbatim>\<open>where('id', '!=', currentUserId)\<close> compares the \<^verbatim>\<open>id\<close> field stored in the document,
  which sign-up sets to the uid.\<close>

definition searchQuery :: "string \<Rightarrow> filters \<Rightarrow> user \<Rightarrow> bool" where
  "searchQuery currentUserId f u =
     (user_id u \<noteq> currentUserId
      \<and> (truthy (f_skill f) \<and> f_skill f \<noteq> Some ''Any Skill''
           \<longrightarrow> the (f_skill f) \<in> set (user_skills u))
      \<and> (truthy (f_interest f) \<and> f_interest f \<noteq> Some ''Any Interest''
           \<longrightarrow> the (f_interest f) \<in> set (user_interests u))
      \<and> (truthy (f_availability f) \<and> f_availability f \<noteq> Some ''Any''
           \<longrightarrow> user_teamStatus u =
                 (if f_availability f = Some ''Available'' then LookingForATeam else InATeam)))"

text \<open>\<open>currentUser\<close> is \<^verbatim>\<open>auth.currentUser\<close>, holding the uid when somebody is signed in.\<close>

definition searchUsers :: "string option \<Rightarrow> filters \<Rightarrow> db \<Rightarrow> error + user list" where
  "searchUsers currentUser f d =
     (case currentUser of
        None \<Rightarrow> Inl NoAuthenticatedUser
      | Some currentUserId \<Rightarrow>
          (let found = filter (searchQuery currentUserId f) (map snd (users d))
           in if truthy (f_name f)
              then Inr (filter (\<lambda>u. str_includes (toLowerCase (user_name u)) (toLowerCase (the (f_name f))))
                         found)
              else Inr found))"

subsection \<open>deleteUserAccount\<close>

text \<open>The writes are issued one after the other, outside a batch; a rejected write leaves
  the earlier ones in place. \<^verbatim>\<open>if (user.teamId)\<close> holds for a non-empty team id, and
  \<^verbatim>\<open>if (user.isTeamOwner)\<close> for the flag \<^verbatim>\<open>true\<close>.\<close>

definition deleteUserAccount :: "user \<Rightarrow> db \<Rightarrow> (error + unit) \<times> db" where
  "deleteUserAccount u d =
     (let finish = (\<lambda>d'. (Inr (), d'\<lparr>users := deleteDoc (users d') (user_id u)\<rparr>))
      in case user_teamId u of
           TeamRef teamId \<Rightarrow>
             if teamId = [] then finish d
             else
               (case getDoc (teams d) teamId of
                  None \<Rightarrow> finish d
                | Some t \<Rightarrow>
                    if user_isTeamOwner u = Some True then
                      if length (team_members t) > 1 then (Inl OwnerMustTransferBeforeDeleting, d)
                      else
                        finish (d\<lparr>teams := deleteDoc (teams d) teamId,
                                  conversations :=
                                    deleteDoc (conversations d) (teamConversationId teamId)\<rparr>)
                    else
                      (let updatedMembers =
                             filter (\<lambda>m. user_id m \<noteq> user_id u) (team_members t)
                       in case updateDoc (teams d) teamId
                                 (\<lambda>t'. t'\<lparr>team_members := updatedMembers\<rparr>) of
                            None \<Rightarrow> (Inl FirestoreNotFound, d)
                          | Some ts \<Rightarrow>
                              (case updateDoc (conversations d) (teamConversationId teamId)
                                      (\<lambda>c. c\<lparr>conv_participantIds :=
                                                arrayRemove (user_id u) (conv_participantIds c)\<rparr>) of
                                 None \<Rightarrow> (Inl FirestoreNotFound, d\<lparr>teams := ts\<rparr>)
                               | Some cs \<Rightarrow> finish (d\<lparr>teams := ts, conversations := cs\<rparr>))))
         | _ \<Rightarrow> finish d)"

section \<open>Properties of the store\<close>

text \<open>The pairs (team, recipient) of the pending invitations, one entry per invitation.\<close>

definition pendingPairs :: "db \<Rightarrow> (string \<times> string) list" where
  "pendingPairs d =
     map (\<lambda>(k, i). (inv_teamId i, inv_toUserId i))
       (filter (\<lambda>(k, i). inv_status i = Pending) (invitations d))"

definition uniquePending :: "db \<Rightarrow> bool" where
  "uniquePending d = distinct (pendingPairs d)"

definition emptyDb :: db where
  "emptyDb = \<lparr>users = [], teams = [], conversations = [], invitations = []\<rparr>"

text \<open>
  The stores that sequential execution reaches from the empty one. \<open>r_other\<close> stands for
  every write of the application that leaves the invitations alone (sign-up, profile
  edits, seeding, messaging).
\<close>

inductive reachable :: "db \<Rightarrow> bool" where
  r_empty: "reachable emptyDb"
| r_other: "reachable d \<Longrightarrow> invitations d' = invitations d \<Longrightarrow> reachable d'"
| r_createTeam: "reachable d \<Longrightarrow> reachable (snd (createTeam newId teamName owner d))"
| r_leaveTeam: "reachable d \<Longrightarrow> reachable (snd (leaveTeam u teamId d))"
| r_sendInvitation:
    "reachable d \<Longrightarrow> reachable (snd (sendInvitation newId now t fromUser toUser d))"
| r_handleInvitation:
    "reachable d \<Longrightarrow> reachable (snd (handleInvitation invitationId accepted u d))"
| r_deleteUserAccount: "reachable d \<Longrightarrow> reachable (snd (deleteUserAccount u d))"

text \<open>A team's aggregates are the unions of its members' skills and interests.\<close>

definition aggregatesOk :: "team \<Rightarrow> bool" where
  "aggregatesOk t \<longleftrightarrow>
     set (team_skills t) = set (concat (map user_skills (team_members t)))
     \<and> set (team_interests t) = set (concat (map user_interests (team_members t)))"

definition aggregateInvariant :: "db \<Rightarrow> bool" where
  "aggregateInvariant d = list_all aggregatesOk (map snd (teams d))"

text \<open>A team's owner is one of its members.\<close>

definition ownerIsMember :: "team \<Rightarrow> bool" where
  "ownerIsMember t \<longleftrightarrow> team_ownerId t \<in> set (map user_id (team_members t))"

definition ownerInvariant :: "db \<Rightarrow> bool" where
  "ownerInvariant d = list_all ownerIsMember (map snd (teams d))"

section \<open>Example stores\<close>

text \<open>A profile as sign-up writes it, with the given id, skills and interests.\<close>

definition exampleUser :: "string \<Rightarrow> string list \<Rightarrow> string list \<Rightarrow> user" where
  "exampleUser uid sk ints =
     \<lparr>user_id = uid, user_name = uid, user_avatarInitial = ''?'', user_title = ''New Student'',
      user_year = 1, user_about = [], user_email = [], user_department = ''Not specified'',
      user_interests = ints, user_skills = sk, user_workingPreferences = [],
      user_teamStatus = LookingForATeam, user_profileComplete = Some True,
      user_teamId = Undefined, user_isTeamOwner = None\<rparr>"

definition alice :: user where "alice = exampleUser ''alice'' [''React''] [''AI'']"
definition bob :: user where "bob = exampleUser ''bob'' [''Python''] [''Web'']"
definition carol :: user where
  "carol = exampleUser ''carol'' [''React'', ''Python'', ''React''] [''Web'']"

definition db_init :: db where
  "db_init = \<lparr>users = [(''alice'', alice), (''bob'', bob)], teams = [], conversations = [],
     invitations = []\<rparr>"

text \<open>Alice has created the team Alpha.\<close>

definition aliceOwner :: user where
  "aliceOwner = alice\<lparr>user_teamId := TeamRef ''t1'', user_isTeamOwner := Some True,
     user_teamStatus := InATeam\<rparr>"

definition alpha :: team where "alpha = newTeam ''t1'' ''Alpha'' alice"

definition alphaChat :: conversation where
  "alphaChat =
     \<lparr>conv_participants =
        [(''alice'', \<lparr>cp_id = ''alice'', cp_name = ''alice'', cp_avatarInitial = ''?''\<rparr>)],
      conv_participantIds = [''alice''], conv_lastMessage = None, conv_isGroupChat = Some True,
      conv_groupName = Some ''Alpha'', conv_teamId = Some ''t1''\<rparr>"

definition db_alpha :: db where
  "db_alpha = \<lparr>users = [(''alice'', aliceOwner), (''bob'', bob)], teams = [(''t1'', alpha)],
     conversations = [(''team_t1'', alphaChat)], invitations = []\<rparr>"

text \<open>Alice has invited Bob.\<close>

definition invite1 :: invitation where
  "invite1 = \<lparr>inv_teamId = ''t1'', inv_teamName = ''Alpha'',
     inv_fromUser = \<lparr>from_id = ''alice'', from_name = ''alice''\<rparr>, inv_toUserId = ''bob'',
     inv_status = Pending, inv_createdAt = 0\<rparr>"

definition db_invited :: db where
  "db_invited = db_alpha\<lparr>invitations := [(''i1'', invite1)]\<rparr>"

text \<open>Bob has accepted.\<close>

definition bobMember :: user where
  "bobMember = bob\<lparr>user_teamId := TeamRef ''t1'', user_teamStatus := InATeam\<rparr>"

definition alpha2 :: team where
  "alpha2 = alpha\<lparr>team_members := [asMember alice, asMember bob],
     team_skills := [''React'', ''Python''], team_interests := [''AI'', ''Web'']\<rparr>"

definition alphaChat2 :: conversation where
  "alphaChat2 = alphaChat\<lparr>conv_participantIds := [''alice'', ''bob''],
     conv_participants :=
       [(''alice'', \<lparr>cp_id = ''alice'', cp_name = ''alice'', cp_avatarInitial = ''?''\<rparr>),
        (''bob'', \<lparr>cp_id = ''bob'', cp_name = ''bob'', cp_avatarInitial = ''?''\<rparr>)]\<rparr>"

definition db_joined :: db where
  "db_joined = \<lparr>users = [(''alice'', aliceOwner), (''bob'', bobMember)],
     teams = [(''t1'', alpha2)], conversations = [(''team_t1'', alphaChat2)], invitations = []\<rparr>"

text \<open>Alice has invited Bob and then left her team, which deletes it; the invitation stays.\<close>

definition db_orphan :: db where
  "db_orphan = \<lparr>users = [(''alice'', clearTeamFields aliceOwner), (''bob'', bob)], teams = [],
     conversations = [], invitations = [(''i1'', invite1)]\<rparr>"

text \<open>Bob, a member of Alpha, holds a second invitation to Alpha.\<close>

definition invite2 :: invitation where
  "invite2 = invite1\<lparr>inv_createdAt := 1\<rparr>"

definition db_reinvited :: db where
  "db_reinvited = db_joined\<lparr>invitations := [(''i2'', invite2)]\<rparr>"

text \<open>
  A run of the service in which every call is given the profile stored at that moment.
  Dave creates Delta and invites Alice; Alice creates Alpha and invites Carol; Carol
  creates Gamma and then accepts Alice's invitation; Alice accepts Dave's invitation and
  leaves Delta again; Carol invites Alice to Alpha and Alice accepts.
\<close>

definition dave :: user where "dave = exampleUser ''dave'' [''Go''] [''Web'']"

definition s0 :: db where
  "s0 = \<lparr>users = [(''alice'', alice), (''carol'', carol), (''dave'', dave)], teams = [],
     conversations = [], invitations = []\<rparr>"

definition s1 :: db where "s1 = snd (createTeam ''t2'' ''Delta'' dave s0)"

definition daveOwner :: user where
  "daveOwner = dave\<lparr>user_teamId := TeamRef ''t2'', user_isTeamOwner := Some True,
     user_teamStatus := InATeam\<rparr>"

definition delta :: team where "delta = newTeam ''t2'' ''Delta'' dave"

definition s2 :: db where "s2 = snd (sendInvitation ''j1'' 0 delta daveOwner alice s1)"

definition s3 :: db where "s3 = snd (createTeam ''t1'' ''Alpha'' alice s2)"

definition s4 :: db where "s4 = snd (sendInvitation ''j2'' 1 alpha aliceOwner carol s3)"

definition s5 :: db where "s5 = snd (createTeam ''t3'' ''Gamma'' carol s4)"

definition carolOwner :: user where
  "carolOwner = carol\<lparr>user_teamId := TeamRef ''t3'', user_isTeamOwner := Some True,
     user_teamStatus := InATeam\<rparr>"

definition s6 :: db where "s6 = snd (handleInvitation ''j2'' True carolOwner s5)"

text \<open>Carol's profile in \<open>s6\<close>: a plain member of Alpha that still carries the owner flag.\<close>

definition carolFlagged :: user where
  "carolFlagged = carolOwner\<lparr>user_teamId := TeamRef ''t1''\<rparr>"

definition alphaWithCarol :: team where
  "alphaWithCarol = alpha\<lparr>team_members := [asMember alice, asMember carolOwner],
     team_skills := [''React'', ''Python''], team_interests := [''AI'', ''Web'']\<rparr>"

definition s7 :: db where "s7 = snd (handleInvitation ''j1'' True aliceOwner s6)"

definition aliceInDelta :: user where
  "aliceInDelta = aliceOwner\<lparr>user_teamId := TeamRef ''t2''\<rparr>"

definition s8 :: db where "s8 = snd (leaveTeam aliceInDelta ''t2'' s7)"

definition aliceLooking :: user where
  "aliceLooking = clearTeamFields aliceInDelta"

definition s9 :: db where
  "s9 = snd (sendInvitation ''j3'' 2 alphaWithCarol carolFlagged aliceLooking s8)"

definition s10 :: db where "s10 = snd (handleInvitation ''j3'' True aliceLooking s9)"

text \<open>Alice's profile in \<open>s10\<close>: the owner of Alpha, without the owner flag.\<close>

definition aliceStale :: user where
  "aliceStale = aliceOwner\<lparr>user_isTeamOwner := Some False\<rparr>"

text \<open>An invitation of Carol to Alpha, beside the one of Bob.\<close>

definition inviteCarol :: invitation where
  "inviteCarol = invite1\<lparr>inv_toUserId := ''carol'', inv_createdAt := 1\<rparr>"

definition db_two_invited :: db where
  "db_two_invited = db_alpha\<lparr>invitations := [(''i1'', invite1), (''i2'', inviteCarol)]\<rparr>"

text \<open>A store with six teams, for the recommendations of Carol.\<close>

definition exampleTeam :: "string \<Rightarrow> user list \<Rightarrow> string list \<Rightarrow> string list \<Rightarrow> team" where
  "exampleTeam tid ms sk ints =
     \<lparr>team_id = tid, team_name = tid, team_ownerId = user_id (hd ms), team_members = ms,
      team_skills = sk, team_interests = ints\<rparr>"

definition db_many :: db where
  "db_many =
     \<lparr>users = [],
      teams =
        [(''tA'', exampleTeam ''tA'' [exampleUser ''dave'' [''Go''] [''Web'']] [''Go''] [''Web'']),
         (''tB'', exampleTeam ''tB'' [carol] [''React'', ''Python''] [''Web'']),
         (''t1'', alpha2),
         (''tD'', exampleTeam ''tD'' [exampleUser ''erin'' [''Go''] [''AI'']] [''Go''] [''AI'']),
         (''tE'', exampleTeam ''tE'' [exampleUser ''fay'' [''Rust''] [''Web'']] [''Rust''] [''Web'']),
         (''tF'', exampleTeam ''tF'' [exampleUser ''gus'' [''React''] [], carol]
                    [''React'', ''Python''] [''Web''])],
      conversations = [], invitations = []\<rparr>"

section \<open>Lemmas about the store\<close>

lemmas store_simps = getDoc_def setDoc_def deleteDoc_def updateDoc_def commit_def arrayUnion_def
  arrayRemove_def array_from_set_def flatMap_def teamConversationId_def asMember_def
  clearTeamFields_def Let_def

lemmas example_simps = exampleUser_def alice_def bob_def db_init_def aliceOwner_def bobMember_def
  alpha_def alphaChat_def db_alpha_def invite1_def db_invited_def alpha2_def alphaChat2_def
  db_joined_def newTeam_def

lemma getDoc_deleteDoc_same: "getDoc (deleteDoc c k) k = None"
  by (simp add: getDoc_def deleteDoc_def delete_conv')

lemma map_of_update_same: "map_of (AList.update k v xs) k = Some v"
  by (simp add: update_conv')

lemma update_fresh: "k \<notin> fst ` set xs \<Longrightarrow> AList.update k v xs = xs @ [(k, v)]"
  by (induction xs) auto

lemma set_update_subset: "set (AList.update k v xs) \<subseteq> insert (k, v) (set xs)"
  by (induction xs) auto

lemma length_delete_present:
  "distinct (map fst xs) \<Longrightarrow> map_of xs k = Some v \<Longrightarrow> length (AList.delete k xs) + 1 = length xs"
proof (induction xs)
  case Nil
  then show ?case by simp
next
  case (Cons x xs)
  obtain k' v' where x: "x = (k', v')" by (cases x)
  show ?case
  proof (cases "k' = k")
    case True
    with Cons.prems have "k \<notin> fst ` set xs" by (simp add: x)
    then have "AList.delete k xs = xs"
      by (induction xs) auto
    with True show ?thesis by (simp add: x)
  next
    case False
    with Cons show ?thesis by (simp add: x)
  qed
qed

lemma list_all_update:
  "list_all P (map snd xs) \<Longrightarrow> P v \<Longrightarrow> list_all P (map snd (AList.update k v xs))"
  by (induction xs) auto

lemma list_all_delete:
  "list_all P (map snd xs) \<Longrightarrow> list_all P (map snd (AList.delete k xs))"
  by (induction xs) auto

lemma list_all_map_of:
  "list_all P (map snd xs) \<Longrightarrow> map_of xs k = Some v \<Longrightarrow> P v"
  by (induction xs) (auto split: if_splits)

subsection \<open>The array a Set yields\<close>

lemma set_set_add_all: "set (set_add_all acc xs) = set acc \<union> set xs"
  by (induction xs arbitrary: acc) auto

lemma distinct_set_add_all: "distinct acc \<Longrightarrow> distinct (set_add_all acc xs)"
  by (induction xs arbitrary: acc) auto

lemma set_array_from_set: "set (array_from_set xs) = set xs"
  by (simp add: array_from_set_def set_set_add_all)

lemma distinct_array_from_set: "distinct (array_from_set xs)"
  by (simp add: array_from_set_def distinct_set_add_all)

lemma length_common: "length (filter (\<lambda>x. x \<in> B) (array_from_set xs)) = card (set xs \<inter> B)"
proof -
  let ?ys = "filter (\<lambda>x. x \<in> B) (array_from_set xs)"
  have "distinct ?ys"
    by (simp add: distinct_array_from_set)
  then have "card (set ?ys) = length ?ys"
    by (rule distinct_card)
  moreover have "set ?ys = set xs \<inter> B"
    by (auto simp: set_array_from_set)
  ultimately show ?thesis by simp
qed

subsection \<open>The teams collection after each operation\<close>

lemma createTeam_teams:
  "teams (snd (createTeam newId teamName owner d)) = teams d
   \<or> teams (snd (createTeam newId teamName owner d))
        = AList.update newId (newTeam newId teamName owner) (teams d)"
  by (simp add: createTeam_def commit_def updateDoc_def setDoc_def Let_def split: option.splits)

lemma leaveTeam_teams:
  "teams (snd (leaveTeam u teamId d)) = teams d
   \<or> teams (snd (leaveTeam u teamId d)) = AList.delete teamId (teams d)
   \<or> (\<exists>t. map_of (teams d) teamId = Some t \<and> user_id u \<noteq> team_ownerId t
        \<and> teams (snd (leaveTeam u teamId d)) =
            AList.update teamId
              (t\<lparr>team_members := filter (\<lambda>m. user_id m \<noteq> user_id u) (team_members t),
                 team_skills := array_from_set (flatMap user_skills
                    (filter (\<lambda>m. user_id m \<noteq> user_id u) (team_members t))),
                 team_interests := array_from_set (flatMap user_interests
                    (filter (\<lambda>m. user_id m \<noteq> user_id u) (team_members t)))\<rparr>) (teams d))"
  by (simp add: leaveTeam_def commit_def updateDoc_def getDoc_def deleteDoc_def Let_def
      split: option.splits)

lemma handleInvitation_teams:
  "teams (snd (handleInvitation invitationId accepted u d)) = teams d
   \<or> (\<exists>i t. map_of (invitations d) invitationId = Some i \<and> map_of (teams d) (inv_teamId i) = Some t
        \<and> teams (snd (handleInvitation invitationId accepted u d)) =
            AList.update (inv_teamId i)
              (t\<lparr>team_members := arrayUnion (asMember u) (team_members t),
                 team_skills := array_from_set (team_skills t @ user_skills u),
                 team_interests := array_from_set (team_interests t @ user_interests u)\<rparr>) (teams d))"
  by (simp add: handleInvitation_def commit_def updateDoc_def getDoc_def deleteDoc_def Let_def
      split: option.splits)

lemma deleteUserAccount_teams:
  "teams (snd (deleteUserAccount u d)) = teams d
   \<or> (\<exists>teamId. teams (snd (deleteUserAccount u d)) = AList.delete teamId (teams d))
   \<or> (\<exists>teamId t. user_teamId u = TeamRef teamId \<and> map_of (teams d) teamId = Some t
        \<and> user_isTeamOwner u \<noteq> Some True
        \<and> teams (snd (deleteUserAccount u d)) =
            AList.update teamId
              (t\<lparr>team_members := filter (\<lambda>m. user_id m \<noteq> user_id u) (team_members t)\<rparr>) (teams d))"
  by (auto simp: deleteUserAccount_def updateDoc_def getDoc_def deleteDoc_def Let_def
      split: option.splits team_ref.splits)

lemma deleteUserAccount_invitations:
  "invitations (snd (deleteUserAccount u d)) = invitations d"
  by (simp add: deleteUserAccount_def updateDoc_def Let_def split: team_ref.splits option.splits)

subsection \<open>The example stores are the ones the operations produce\<close>

lemma scenario_create: "createTeam ''t1'' ''Alpha'' alice db_init = (Inr alpha, db_alpha)"
  by (simp add: createTeam_def store_simps example_simps)

lemma scenario_invite: "sendInvitation ''i1'' 0 alpha aliceOwner bob db_alpha = (Inr (), db_invited)"
  by (simp add: sendInvitation_def existingInvites_def store_simps example_simps)

lemma scenario_accept: "handleInvitation ''i1'' True bob db_invited = (Inr (), db_joined)"
  by (simp add: handleInvitation_def store_simps example_simps)

lemma scenario_owner_leaves: "leaveTeam aliceOwner ''t1'' db_invited = (Inr (), db_orphan)"
  by (simp add: leaveTeam_def db_orphan_def store_simps example_simps)

lemma scenario_reinvite:
  "sendInvitation ''i2'' 1 alpha2 aliceOwner bobMember db_joined = (Inr (), db_reinvited)"
  by (simp add: sendInvitation_def existingInvites_def db_reinvited_def invite2_def store_simps
      example_simps)

subsection \<open>The run with stored profiles\<close>

lemmas chain_simps = dave_def s0_def daveOwner_def delta_def s1_def s2_def s3_def s4_def s5_def
  carolOwner_def s6_def carolFlagged_def s7_def aliceInDelta_def s8_def aliceLooking_def
  alphaWithCarol_def s9_def s10_def aliceStale_def carol_def createTeam_def sendInvitation_def
  handleInvitation_def leaveTeam_def existingInvites_def

text \<open>Every call of the run succeeds.\<close>

lemma chain_succeeds:
  "fst (createTeam ''t2'' ''Delta'' dave s0) = Inr delta"
  "fst (sendInvitation ''j1'' 0 delta daveOwner alice s1) = Inr ()"
  "fst (createTeam ''t1'' ''Alpha'' alice s2) = Inr alpha"
  "fst (sendInvitation ''j2'' 1 alpha aliceOwner carol s3) = Inr ()"
  "fst (createTeam ''t3'' ''Gamma'' carol s4) = Inr (newTeam ''t3'' ''Gamma'' carol)"
  "fst (handleInvitation ''j2'' True carolOwner s5) = Inr ()"
  "fst (handleInvitation ''j1'' True aliceOwner s6) = Inr ()"
  "fst (leaveTeam aliceInDelta ''t2'' s7) = Inr ()"
  "fst (sendInvitation ''j3'' 2 alphaWithCarol carolFlagged aliceLooking s8) = Inr ()"
  "fst (handleInvitation ''j3'' True aliceLooking s9) = Inr ()"
  by (simp_all add: chain_simps store_simps example_simps)

text \<open>The profile and the team passed to each call are the stored ones.\<close>

lemma chain_arguments_are_stored:
  "getDoc (users s0) ''dave'' = Some dave"
  "getDoc (users s1) ''dave'' = Some daveOwner" "getDoc (teams s1) ''t2'' = Some delta"
  "getDoc (users s1) ''alice'' = Some alice"
  "getDoc (users s2) ''alice'' = Some alice"
  "getDoc (users s3) ''alice'' = Some aliceOwner" "getDoc (teams s3) ''t1'' = Some alpha"
  "getDoc (users s3) ''carol'' = Some carol"
  "getDoc (users s4) ''carol'' = Some carol"
  "getDoc (users s5) ''carol'' = Some carolOwner"
  "getDoc (users s6) ''carol'' = Some carolFlagged"
  "getDoc (users s6) ''alice'' = Some aliceOwner"
  "getDoc (users s7) ''alice'' = Some aliceInDelta"
  "getDoc (users s8) ''alice'' = Some aliceLooking"
  "getDoc (users s8) ''carol'' = Some carolFlagged"
  "getDoc (teams s8) ''t1'' = Some alphaWithCarol"
  "getDoc (users s9) ''alice'' = Some aliceLooking"
  "getDoc (users s10) ''alice'' = Some aliceStale"
  by (simp_all add: chain_simps store_simps example_simps)

section \<open>Aggregates of a team (C1)\<close>

lemma aggregatesOk_newTeam: "aggregatesOk (newTeam newId teamName owner)"
  by (simp add: aggregatesOk_def newTeam_def asMember_def)

lemma aggregatesOk_recomputed:
  "aggregatesOk (t\<lparr>team_members := ms, team_skills := array_from_set (flatMap user_skills ms),
                   team_interests := array_from_set (flatMap user_interests ms)\<rparr>)"
  by (simp add: aggregatesOk_def set_array_from_set flatMap_def)

lemma aggregatesOk_join:
  assumes "aggregatesOk t"
  shows "aggregatesOk (t\<lparr>team_members := arrayUnion (asMember u) (team_members t),
                 team_skills := array_from_set (team_skills t @ user_skills u),
                 team_interests := array_from_set (team_interests t @ user_interests u)\<rparr>)"
proof (cases "asMember u \<in> set (team_members t)")
  case True
  then have "set (user_skills u) \<subseteq> set (concat (map user_skills (team_members t)))"
    "set (user_interests u) \<subseteq> set (concat (map user_interests (team_members t)))"
    by (auto simp: asMember_def intro!: bexI [where x = "asMember u"])
  with assms True show ?thesis
    by (auto simp: aggregatesOk_def arrayUnion_def set_array_from_set)
next
  case False
  with assms show ?thesis
    by (auto simp: aggregatesOk_def arrayUnion_def set_array_from_set asMember_def)
qed

text \<open>
  Creating a team, accepting an invitation and leaving a team keep the aggregates of every
  stored team equal to the unions over its members.
\<close>

lemma aggregates_preserved_by_create_join_leave:
  assumes "aggregateInvariant d"
  shows "aggregateInvariant (snd (createTeam newId teamName owner d))"
    and "aggregateInvariant (snd (handleInvitation invitationId accepted u d))"
    and "aggregateInvariant (snd (leaveTeam u teamId d))"
proof -
  show "aggregateInvariant (snd (createTeam newId teamName owner d))"
    using createTeam_teams [of newId teamName owner d] assms
    by (auto simp: aggregateInvariant_def list_all_update aggregatesOk_newTeam)
  show "aggregateInvariant (snd (handleInvitation invitationId accepted u d))"
    using handleInvitation_teams [of invitationId accepted u d] assms
    by (auto simp: aggregateInvariant_def intro!: list_all_update aggregatesOk_join
             dest: list_all_map_of)
  show "aggregateInvariant (snd (leaveTeam u teamId d))"
    using leaveTeam_teams [of u teamId d] assms
    by (auto simp: aggregateInvariant_def list_all_delete
             intro!: list_all_update aggregatesOk_recomputed)
qed

text \<open>
  C1. After every create, join and leave, a team's skills are the union of its members'
  skills, and likewise its interests. The member-removal branch of \<open>deleteUserAccount\<close>
  does not keep this: it writes the filtered member list and leaves the aggregates as they
  were. When Bob, a member of Alpha, deletes his account, Alpha keeps the skills
  React and Python while its only member, Alice, has React; \<open>leaveTeam\<close> on the same
  store recomputes the aggregates.
\<close>

theorem deleteUserAccount_stale_aggregates:
  "aggregateInvariant db_joined
   \<and> fst (deleteUserAccount bobMember db_joined) = Inr ()
   \<and> getDoc (teams (snd (deleteUserAccount bobMember db_joined))) ''t1''
       = Some (alpha2\<lparr>team_members := [asMember alice]\<rparr>)
   \<and> team_skills (alpha2\<lparr>team_members := [asMember alice]\<rparr>) = [''React'', ''Python'']
   \<and> concat (map user_skills (team_members (alpha2\<lparr>team_members := [asMember alice]\<rparr>)))
       = [''React'']
   \<and> \<not> aggregateInvariant (snd (deleteUserAccount bobMember db_joined))
   \<and> getDoc (teams (snd (leaveTeam bobMember ''t1'' db_joined))) ''t1'' = Some alpha
   \<and> aggregateInvariant (snd (leaveTeam bobMember ''t1'' db_joined))"
  by (simp add: deleteUserAccount_def leaveTeam_def aggregateInvariant_def aggregatesOk_def
      store_simps example_simps)

section \<open>Resolving an invitation (C2)\<close>

text \<open>
  C2, as stated: resolving an invitation always removes it, also when the operation fails
  after it found the invitation. Accepting an invitation whose team is gone fails with
  \<open>TeamNotFound\<close> before any write, and the invitation stays in the store.
\<close>

theorem handleInvitation_keeps_invitation_counterexample:
  "getDoc (invitations db_orphan) ''i1'' = Some invite1
   \<and> handleInvitation ''i1'' True bob db_orphan = (Inl TeamNotFound, db_orphan)
   \<and> getDoc (invitations (snd (handleInvitation ''i1'' True bob db_orphan))) ''i1'' = Some invite1"
  by (simp add: handleInvitation_def db_orphan_def store_simps example_simps)

text \<open>
  C2, amended: when the invitation exists, a successful resolution removes it; declining
  always succeeds and deletes nothing but the invitation; a resolution that fails is an
  acceptance and leaves the whole store, the invitation included, unchanged.
\<close>

theorem handleInvitation_removes_on_success:
  assumes "getDoc (invitations d) invitationId = Some i"
  shows "(fst (handleInvitation invitationId accepted u d) = Inr () \<longrightarrow>
            getDoc (invitations (snd (handleInvitation invitationId accepted u d))) invitationId
              = None)
       \<and> (fst (handleInvitation invitationId accepted u d) \<noteq> Inr () \<longrightarrow>
            accepted \<and> snd (handleInvitation invitationId accepted u d) = d)
       \<and> (\<not> accepted \<longrightarrow>
            handleInvitation invitationId accepted u d =
              (Inr (), d\<lparr>invitations := deleteDoc (invitations d) invitationId\<rparr>))"
  using assms
  by (auto simp: handleInvitation_def commit_def updateDoc_def getDoc_def deleteDoc_def delete_conv'
      Let_def split: option.splits)

theorem handleInvitation_removes_on_success_witness:
  "getDoc (invitations db_invited) ''i1'' = Some invite1
   \<and> fst (handleInvitation ''i1'' True bob db_invited) = Inr ()
   \<and> getDoc (invitations (snd (handleInvitation ''i1'' True bob db_invited))) ''i1'' = None
   \<and> getDoc (invitations db_orphan) ''i1'' = Some invite1
   \<and> fst (handleInvitation ''i1'' True bob db_orphan) \<noteq> Inr ()
   \<and> snd (handleInvitation ''i1'' True bob db_orphan) = db_orphan
   \<and> handleInvitation ''i1'' False bob db_invited =
       (Inr (), db_invited\<lparr>invitations := deleteDoc (invitations db_invited) ''i1''\<rparr>)"
proof -
  have a: "getDoc (invitations db_invited) ''i1'' = Some invite1"
    by (simp add: store_simps example_simps)
  have b: "getDoc (invitations db_orphan) ''i1'' = Some invite1"
    by (simp add: db_orphan_def store_simps example_simps)
  have ok: "fst (handleInvitation ''i1'' True bob db_invited) = Inr ()"
    by (simp add: scenario_accept)
  have ko: "fst (handleInvitation ''i1'' True bob db_orphan) \<noteq> Inr ()"
    by (simp add: handleInvitation_def db_orphan_def store_simps example_simps)
  from handleInvitation_removes_on_success [OF a, of True bob]
    handleInvitation_removes_on_success [OF b, of True bob]
    handleInvitation_removes_on_success [OF a, of False bob] a b ok ko
  show ?thesis by simp
qed

section \<open>Account deletion and leaving a team (C3)\<close>

text \<open>
  Where the two operations agree. For a user whose profile refers to an existing team,
  whose \<open>isTeamOwner\<close> flag is set exactly when the user's id is the team's owner id,
  whose profile is stored and, for a plain member, whose team conversation is stored:
  an owner with other members is rejected by both and nothing changes; a sole owner's
  team and conversation are deleted by both; a plain member is removed by both from the
  member list and from the participant ids, and \<open>leaveTeam\<close> alone recomputes the
  aggregates.
\<close>

lemma deleteUserAccount_leaveTeam_consistent_flag:
  assumes tid: "user_teamId u = TeamRef teamId" "teamId \<noteq> []"
    and team: "getDoc (teams d) teamId = Some t"
    and flag: "user_isTeamOwner u = Some True \<longleftrightarrow> user_id u = team_ownerId t"
    and prof: "getDoc (users d) (user_id u) = Some p"
    and conv: "user_id u \<noteq> team_ownerId t \<longrightarrow>
                 getDoc (conversations d) (teamConversationId teamId) = Some c"
  shows "(user_id u = team_ownerId t \<and> length (team_members t) > 1 \<longrightarrow>
            deleteUserAccount u d = (Inl OwnerMustTransferBeforeDeleting, d)
          \<and> leaveTeam u teamId d = (Inl OwnerMustTransferBeforeLeaving, d))
       \<and> (user_id u = team_ownerId t \<and> length (team_members t) \<le> 1 \<longrightarrow>
            deleteUserAccount u d =
              (Inr (), d\<lparr>teams := deleteDoc (teams d) teamId,
                 conversations := deleteDoc (conversations d) (teamConversationId teamId),
                 users := deleteDoc (users d) (user_id u)\<rparr>)
          \<and> leaveTeam u teamId d =
              (Inr (), d\<lparr>teams := deleteDoc (teams d) teamId,
                 conversations := deleteDoc (conversations d) (teamConversationId teamId),
                 users := AList.update (user_id u) (clearTeamFields p) (users d)\<rparr>))
       \<and> (user_id u \<noteq> team_ownerId t \<longrightarrow>
            deleteUserAccount u d =
              (Inr (), d\<lparr>teams := AList.update teamId
                   (t\<lparr>team_members := filter (\<lambda>m. user_id m \<noteq> user_id u) (team_members t)\<rparr>)
                   (teams d),
                 conversations := AList.update (teamConversationId teamId)
                   (c\<lparr>conv_participantIds := removeAll (user_id u) (conv_participantIds c)\<rparr>)
                   (conversations d),
                 users := deleteDoc (users d) (user_id u)\<rparr>)
          \<and> leaveTeam u teamId d =
              (Inr (), d\<lparr>teams := AList.update teamId
                   (t\<lparr>team_members := filter (\<lambda>m. user_id m \<noteq> user_id u) (team_members t),
                      team_skills := array_from_set (concat (map user_skills
                        (filter (\<lambda>m. user_id m \<noteq> user_id u) (team_members t)))),
                      team_interests := array_from_set (concat (map user_interests
                        (filter (\<lambda>m. user_id m \<noteq> user_id u) (team_members t))))\<rparr>)
                   (teams d),
                 conversations := AList.update (teamConversationId teamId)
                   (c\<lparr>conv_participantIds := removeAll (user_id u) (conv_participantIds c)\<rparr>)
                   (conversations d),
                 users := AList.update (user_id u) (clearTeamFields p) (users d)\<rparr>))"
proof (intro conjI impI)
  assume a: "user_id u = team_ownerId t \<and> length (team_members t) > 1"
  with flag have o: "user_isTeamOwner u = Some True" by simp
  show "deleteUserAccount u d = (Inl OwnerMustTransferBeforeDeleting, d)"
    using tid team o a by (simp add: deleteUserAccount_def)
  show "leaveTeam u teamId d = (Inl OwnerMustTransferBeforeLeaving, d)"
    using team a by (simp add: leaveTeam_def)
next
  assume a: "user_id u = team_ownerId t \<and> length (team_members t) \<le> 1"
  with flag have o: "user_isTeamOwner u = Some True" by simp
  from a have n: "\<not> length (team_members t) > 1" by simp
  show "deleteUserAccount u d =
      (Inr (), d\<lparr>teams := deleteDoc (teams d) teamId,
                 conversations := deleteDoc (conversations d) (teamConversationId teamId),
                 users := deleteDoc (users d) (user_id u)\<rparr>)"
    using tid team o n by (simp add: deleteUserAccount_def)
  show "leaveTeam u teamId d =
      (Inr (), d\<lparr>teams := deleteDoc (teams d) teamId,
                 conversations := deleteDoc (conversations d) (teamConversationId teamId),
                 users := AList.update (user_id u) (clearTeamFields p) (users d)\<rparr>)"
    using team a n prof by (simp add: leaveTeam_def commit_def updateDoc_def getDoc_def)
next
  assume a: "user_id u \<noteq> team_ownerId t"
  with flag have o: "user_isTeamOwner u \<noteq> Some True" by simp
  from a conv have c: "getDoc (conversations d) (teamConversationId teamId) = Some c" by simp
  show "deleteUserAccount u d =
      (Inr (), d\<lparr>teams := AList.update teamId
                   (t\<lparr>team_members := filter (\<lambda>m. user_id m \<noteq> user_id u) (team_members t)\<rparr>)
                   (teams d),
                 conversations := AList.update (teamConversationId teamId)
                   (c\<lparr>conv_participantIds := removeAll (user_id u) (conv_participantIds c)\<rparr>)
                   (conversations d),
                 users := deleteDoc (users d) (user_id u)\<rparr>)"
    using tid team o c
    by (simp add: deleteUserAccount_def updateDoc_def getDoc_def arrayRemove_def Let_def)
  show "leaveTeam u teamId d =
      (Inr (), d\<lparr>teams := AList.update teamId
                   (t\<lparr>team_members := filter (\<lambda>m. user_id m \<noteq> user_id u) (team_members t),
                      team_skills := array_from_set (concat (map user_skills
                        (filter (\<lambda>m. user_id m \<noteq> user_id u) (team_members t)))),
                      team_interests := array_from_set (concat (map user_interests
                        (filter (\<lambda>m. user_id m \<noteq> user_id u) (team_members t))))\<rparr>)
                   (teams d),
                 conversations := AList.update (teamConversationId teamId)
                   (c\<lparr>conv_participantIds := removeAll (user_id u) (conv_participantIds c)\<rparr>)
                   (conversations d),
                 users := AList.update (user_id u) (clearTeamFields p) (users d)\<rparr>)"
    using team a prof c
    by (simp add: leaveTeam_def commit_def updateDoc_def getDoc_def arrayRemove_def flatMap_def
        Let_def)
qed

text \<open>
  C3. Account deletion is to branch as \<open>leaveTeam\<close> does: reject an owner with other
  members, delete a sole owner's team and conversation, remove a plain member and leave
  the same team record. The code does not. First, it takes the owner branch on the
  \<open>isTeamOwner\<close> flag of the profile, which \<open>handleInvitation\<close> never resets: in \<open>s6\<close>
  Carol, who created Gamma and then accepted Alice's invitation, is a plain member of
  Alpha with the flag set; account deletion with her stored profile is rejected with the
  owner's error and changes nothing, while \<open>leaveTeam\<close> removes her from Alpha and from
  its conversation. Second, for the plain member Bob of \<open>db_joined\<close>, whose flag agrees
  with the team record, both operations remove him but the resulting team records
  differ: account deletion leaves the skills and interests as they were, \<open>leaveTeam\<close>
  recomputes them.
\<close>

theorem deleteUserAccount_differs_from_leaveTeam:
  "getDoc (users s6) ''carol'' = Some carolFlagged
   \<and> user_teamId carolFlagged = TeamRef ''t1''
   \<and> user_isTeamOwner carolFlagged = Some True
   \<and> map_option (\<lambda>t. (team_ownerId t, map user_id (team_members t))) (getDoc (teams s6) ''t1'')
       = Some (''alice'', [''alice'', ''carol''])
   \<and> map_option conv_participantIds (getDoc (conversations s6) ''team_t1'')
       = Some [''alice'', ''carol'']
   \<and> deleteUserAccount carolFlagged s6 = (Inl OwnerMustTransferBeforeDeleting, s6)
   \<and> fst (leaveTeam carolFlagged ''t1'' s6) = Inr ()
   \<and> map_option (\<lambda>t. (team_ownerId t, map user_id (team_members t)))
        (getDoc (teams (snd (leaveTeam carolFlagged ''t1'' s6))) ''t1'')
       = Some (''alice'', [''alice''])
   \<and> map_option conv_participantIds
        (getDoc (conversations (snd (leaveTeam carolFlagged ''t1'' s6))) ''team_t1'')
       = Some [''alice'']
   \<and> getDoc (users db_joined) ''bob'' = Some bobMember
   \<and> user_isTeamOwner bobMember = None
   \<and> fst (deleteUserAccount bobMember db_joined) = Inr ()
   \<and> fst (leaveTeam bobMember ''t1'' db_joined) = Inr ()
   \<and> getDoc (teams (snd (deleteUserAccount bobMember db_joined))) ''t1''
       = Some (alpha\<lparr>team_skills := [''React'', ''Python''], team_interests := [''AI'', ''Web'']\<rparr>)
   \<and> getDoc (teams (snd (leaveTeam bobMember ''t1'' db_joined))) ''t1'' = Some alpha
   \<and> conversations (snd (deleteUserAccount bobMember db_joined))
       = conversations (snd (leaveTeam bobMember ''t1'' db_joined))"
  by (simp add: deleteUserAccount_def chain_simps store_simps example_simps)

section \<open>Leaving a team as its owner (C4, C5)\<close>

text \<open>
  C4. When the user is the owner of the team and the team has more than one member,
  \<open>leaveTeam\<close> fails with the owner-must-transfer error and the store, so the team
  record and the user's profile, is unchanged.
\<close>

theorem leaveTeam_owner_with_members_fails:
  assumes "getDoc (teams d) teamId = Some t"
    and "user_id u = team_ownerId t"
    and "length (team_members t) > 1"
  shows "leaveTeam u teamId d = (Inl OwnerMustTransferBeforeLeaving, d)"
  using assms by (simp add: leaveTeam_def)

theorem leaveTeam_owner_with_members_fails_witness:
  "getDoc (teams db_joined) ''t1'' = Some alpha2
   \<and> user_id aliceOwner = team_ownerId alpha2
   \<and> length (team_members alpha2) > 1
   \<and> leaveTeam aliceOwner ''t1'' db_joined = (Inl OwnerMustTransferBeforeLeaving, db_joined)"
proof -
  have a: "getDoc (teams db_joined) ''t1'' = Some alpha2"
    by (simp add: store_simps example_simps)
  have b: "user_id aliceOwner = team_ownerId alpha2"
    by (simp add: store_simps example_simps)
  have c: "length (team_members alpha2) > 1"
    by (simp add: store_simps example_simps)
  from leaveTeam_owner_with_members_fails [OF a b c] a b c show ?thesis by simp
qed

text \<open>
  C5. When the user is the owner and only member of an existing team, and the user's
  profile is stored, \<open>leaveTeam\<close> succeeds, the team record and the record of the team's
  conversation are gone, and the stored profile has \<open>teamId = null\<close>,
  \<open>isTeamOwner = false\<close> and \<open>teamStatus = 'Looking for a team'\<close>, its other fields as
  before.
\<close>

theorem leaveTeam_sole_owner:
  assumes "getDoc (teams d) teamId = Some t"
    and "user_id u = team_ownerId t"
    and "length (team_members t) = 1"
    and "getDoc (users d) (user_id u) = Some p"
  shows "fst (leaveTeam u teamId d) = Inr ()
    \<and> getDoc (teams (snd (leaveTeam u teamId d))) teamId = None
    \<and> getDoc (conversations (snd (leaveTeam u teamId d))) (teamConversationId teamId) = None
    \<and> getDoc (users (snd (leaveTeam u teamId d))) (user_id u) =
        Some (p\<lparr>user_teamId := Null, user_isTeamOwner := Some False,
                user_teamStatus := LookingForATeam\<rparr>)"
  using assms
  by (simp add: leaveTeam_def commit_def updateDoc_def getDoc_def deleteDoc_def delete_conv'
      update_conv' clearTeamFields_def)

theorem leaveTeam_sole_owner_witness:
  "getDoc (teams db_alpha) ''t1'' = Some alpha
   \<and> user_id aliceOwner = team_ownerId alpha
   \<and> length (team_members alpha) = 1
   \<and> getDoc (users db_alpha) (user_id aliceOwner) = Some aliceOwner
   \<and> fst (leaveTeam aliceOwner ''t1'' db_alpha) = Inr ()
   \<and> getDoc (teams (snd (leaveTeam aliceOwner ''t1'' db_alpha))) ''t1'' = None
   \<and> getDoc (conversations (snd (leaveTeam aliceOwner ''t1'' db_alpha))) ''team_t1'' = None
   \<and> getDoc (users (snd (leaveTeam aliceOwner ''t1'' db_alpha))) ''alice'' =
        Some (aliceOwner\<lparr>user_teamId := Null, user_isTeamOwner := Some False,
                user_teamStatus := LookingForATeam\<rparr>)"
proof -
  have a: "getDoc (teams db_alpha) ''t1'' = Some alpha"
    by (simp add: store_simps example_simps)
  have b: "user_id aliceOwner = team_ownerId alpha"
    by (simp add: store_simps example_simps)
  have c: "length (team_members alpha) = 1"
    by (simp add: store_simps example_simps)
  have e: "getDoc (users db_alpha) (user_id aliceOwner) = Some aliceOwner"
    by (simp add: store_simps example_simps)
  have f: "user_id aliceOwner = ''alice''" "teamConversationId ''t1'' = ''team_t1''"
    by (simp_all add: store_simps example_simps)
  from leaveTeam_sole_owner [OF a b c e] a b c e show ?thesis
    by (simp only: f simp_thms)
qed

section \<open>Accepting and declining (C6)\<close>

text \<open>
  C6, as stated: accepting any pending invitation to an existing team adds exactly one
  participant to the team's conversation. \<^verbatim>\<open>arrayUnion\<close> adds nothing when the value is
  already there: Bob, already a member and participant of Alpha, accepts a second
  invitation to Alpha, and the participants of the conversation are the same two as before.
\<close>

theorem handleInvitation_accept_counterexample:
  "getDoc (invitations db_reinvited) ''i2'' = Some invite2
   \<and> getDoc (teams db_reinvited) (inv_teamId invite2) = Some alpha2
   \<and> fst (handleInvitation ''i2'' True bobMember db_reinvited) = Inr ()
   \<and> map_option conv_participantIds (getDoc (conversations db_reinvited) ''team_t1'')
       = Some [''alice'', ''bob'']
   \<and> map_option conv_participantIds
        (getDoc (conversations (snd (handleInvitation ''i2'' True bobMember db_reinvited)))
           ''team_t1'')
       = Some [''alice'', ''bob'']"
  by (simp add: handleInvitation_def store_simps example_simps invite2_def db_reinvited_def)

text \<open>
  C6, amended: for a stored invitation (document ids being distinct), declining succeeds,
  removes exactly that invitation and changes no other record. Accepting, when the team,
  the team's conversation and the user's profile are stored, the user's member summary is
  not yet in the member list and the user's id not yet among the participant ids,
  succeeds, appends exactly that summary to the member list, removes exactly that
  invitation, and appends exactly the user's id to the participant ids.
\<close>

theorem handleInvitation_accept_decline:
  assumes inv: "getDoc (invitations d) invitationId = Some i"
    and dist: "distinct (map fst (invitations d))"
  shows "(handleInvitation invitationId False u d =
            (Inr (), d\<lparr>invitations := deleteDoc (invitations d) invitationId\<rparr>)
          \<and> getDoc (deleteDoc (invitations d) invitationId) invitationId = None
          \<and> length (deleteDoc (invitations d) invitationId) + 1 = length (invitations d))
       \<and> (getDoc (teams d) (inv_teamId i) = Some t
          \<and> getDoc (conversations d) (teamConversationId (inv_teamId i)) = Some c
          \<and> getDoc (users d) (user_id u) = Some p
          \<and> asMember u \<notin> set (team_members t)
          \<and> user_id u \<notin> set (conv_participantIds c)
          \<longrightarrow> fst (handleInvitation invitationId True u d) = Inr ()
            \<and> map_option team_members
                 (getDoc (teams (snd (handleInvitation invitationId True u d))) (inv_teamId i))
                = Some (team_members t @ [asMember u])
            \<and> invitations (snd (handleInvitation invitationId True u d))
                = deleteDoc (invitations d) invitationId
            \<and> map_option conv_participantIds
                 (getDoc (conversations (snd (handleInvitation invitationId True u d)))
                    (teamConversationId (inv_teamId i)))
                = Some (conv_participantIds c @ [user_id u]))"
proof (intro conjI impI)
  show "handleInvitation invitationId False u d =
            (Inr (), d\<lparr>invitations := deleteDoc (invitations d) invitationId\<rparr>)"
    using inv by (simp add: handleInvitation_def commit_def)
  show "getDoc (deleteDoc (invitations d) invitationId) invitationId = None"
    by (rule getDoc_deleteDoc_same)
  have "map_of (invitations d) invitationId = Some i"
    using inv by (simp only: getDoc_def)
  from length_delete_present [OF dist this]
  show "length (deleteDoc (invitations d) invitationId) + 1 = length (invitations d)"
    by (simp only: deleteDoc_def)
next
  assume h: "getDoc (teams d) (inv_teamId i) = Some t
          \<and> getDoc (conversations d) (teamConversationId (inv_teamId i)) = Some c
          \<and> getDoc (users d) (user_id u) = Some p
          \<and> asMember u \<notin> set (team_members t)
          \<and> user_id u \<notin> set (conv_participantIds c)"
  let ?r = "handleInvitation invitationId True u d"
  show "fst ?r = Inr ()"
    using inv h by (simp add: handleInvitation_def commit_def updateDoc_def getDoc_def Let_def)
  show "map_option team_members (getDoc (teams (snd ?r)) (inv_teamId i))
                = Some (team_members t @ [asMember u])"
    using inv h
    by (simp add: handleInvitation_def commit_def updateDoc_def getDoc_def Let_def
        map_of_update_same arrayUnion_def)
  show "invitations (snd ?r) = deleteDoc (invitations d) invitationId"
    using inv h by (simp add: handleInvitation_def commit_def updateDoc_def getDoc_def Let_def)
  show "map_option conv_participantIds
                 (getDoc (conversations (snd ?r)) (teamConversationId (inv_teamId i)))
                = Some (conv_participantIds c @ [user_id u])"
    using inv h
    by (simp add: handleInvitation_def commit_def updateDoc_def getDoc_def Let_def
        map_of_update_same arrayUnion_def)
qed

theorem handleInvitation_accept_decline_witness:
  "getDoc (invitations db_invited) ''i1'' = Some invite1
   \<and> distinct (map fst (invitations db_invited))
   \<and> getDoc (teams db_invited) (inv_teamId invite1) = Some alpha
   \<and> getDoc (conversations db_invited) (teamConversationId (inv_teamId invite1)) = Some alphaChat
   \<and> getDoc (users db_invited) (user_id bob) = Some bob
   \<and> asMember bob \<notin> set (team_members alpha)
   \<and> user_id bob \<notin> set (conv_participantIds alphaChat)
   \<and> fst (handleInvitation ''i1'' True bob db_invited) = Inr ()
   \<and> map_option team_members (getDoc (teams (snd (handleInvitation ''i1'' True bob db_invited))) ''t1'')
       = Some [asMember alice, asMember bob]
   \<and> invitations (snd (handleInvitation ''i1'' True bob db_invited)) = []
   \<and> map_option conv_participantIds
        (getDoc (conversations (snd (handleInvitation ''i1'' True bob db_invited))) ''team_t1'')
       = Some [''alice'', ''bob'']
   \<and> handleInvitation ''i1'' False bob db_invited = (Inr (), db_alpha)"
proof -
  have a: "getDoc (invitations db_invited) ''i1'' = Some invite1"
    by (simp add: store_simps example_simps)
  have b: "distinct (map fst (invitations db_invited))"
    by (simp add: store_simps example_simps)
  have c: "getDoc (teams db_invited) (inv_teamId invite1) = Some alpha
   \<and> getDoc (conversations db_invited) (teamConversationId (inv_teamId invite1)) = Some alphaChat
   \<and> getDoc (users db_invited) (user_id bob) = Some bob
   \<and> asMember bob \<notin> set (team_members alpha)
   \<and> user_id bob \<notin> set (conv_participantIds alphaChat)"
    by (simp add: store_simps example_simps)
  have e: "db_invited\<lparr>invitations := []\<rparr> = db_alpha"
    by (simp add: store_simps example_simps)
  have g: "team_members alpha @ [asMember bob] = [asMember alice, asMember bob]"
      "conv_participantIds alphaChat @ [user_id bob] = [''alice'', ''bob'']"
      "inv_teamId invite1 = ''t1''" "teamConversationId ''t1'' = ''team_t1''"
      "deleteDoc (invitations db_invited) ''i1'' = []"
    by (simp_all add: store_simps example_simps)
  from handleInvitation_accept_decline [OF a b, of bob alpha alphaChat bob] a b c
  show ?thesis
    by (simp only: g e simp_thms)
qed

section \<open>Recommended teams (C7)\<close>

lemma scoreTeam_fields:
  "team_ownerId (scoreTeam cu t) = team_ownerId t"
  "team_members (scoreTeam cu t) = team_members t"
  "team_skills (scoreTeam cu t) = team_skills t"
  "team_interests (scoreTeam cu t) = team_interests t"
  "team.truncate (scoreTeam cu t) = t"
  by (simp_all add: scoreTeam_def Let_def team.truncate_def)

lemma scoreTeam_score:
  "score (scoreTeam cu t) =
     2 * card (set (user_skills cu) \<inter> set (team_skills t))
     + card (set (user_interests cu) \<inter> set (team_interests t))"
  by (simp add: scoreTeam_def Let_def length_common)

lemma scoreTeam_common:
  "set (commonSkills (scoreTeam cu t)) = set (user_skills cu) \<inter> set (team_skills t)"
  "set (commonInterests (scoreTeam cu t)) = set (user_interests cu) \<inter> set (team_interests t)"
  by (auto simp: scoreTeam_def Let_def set_array_from_set)

lemma set_getRecommendedTeams:
  "set (getRecommendedTeams cu d) = {s \<in> scoreTeam cu ` set (allTeams cu d). score s > 0}"
  by (auto simp: getRecommendedTeams_def)

lemma allTeams_D:
  assumes "t \<in> set (allTeams cu d)"
  shows "t \<in> snd ` set (teams d)" "team_ownerId t \<noteq> user_id cu"
    "user_id cu \<notin> user_id ` set (team_members t)"
  using assms by (auto simp: allTeams_def)

lemma sorted_getRecommendedTeams:
  "sorted_wrt (\<lambda>a b. score a \<ge> score b) (getRecommendedTeams cu d)"
proof -
  have "sorted (map (\<lambda>t. - int (score t)) (getRecommendedTeams cu d))"
    unfolding getRecommendedTeams_def by (rule sorted_sort_key)
  then show ?thesis by (simp add: sorted_map)
qed

lemma stable_getRecommendedTeams:
  assumes "k > 0"
  shows "filter (\<lambda>t. score t = k) (getRecommendedTeams cu d)
       = filter (\<lambda>t. score t = k) (map (scoreTeam cu) (allTeams cu d))"
proof -
  let ?c = "filter (\<lambda>t. score t > 0) (map (scoreTeam cu) (allTeams cu d))"
  have "filter (\<lambda>t. score t = k) (getRecommendedTeams cu d)
      = filter (\<lambda>t. - int (score t) = - int k) (sort_key (\<lambda>t. - int (score t)) ?c)"
    by (simp add: getRecommendedTeams_def)
  also have "\<dots> = filter (\<lambda>t. - int (score t) = - int k) ?c"
    by (rule sort_key_stable)
  also have "\<dots> = filter (\<lambda>t. score t = k) (map (scoreTeam cu) (allTeams cu d))"
    using assms by (auto intro: filter_cong)
  finally show ?thesis .
qed

text \<open>
  C7. Every recommended team is a stored team that the user neither owns nor belongs to,
  has a positive score, carries the score
  \<open>2 * |user.skills \<inter> team.skills| + |user.interests \<inter> team.interests|\<close> and the two lists
  of matches; the result is in descending order of score; and the teams of one positive
  score are exactly the candidates of that score, in the order of the query.
\<close>

theorem getRecommendedTeams_correct:
  "(\<forall>t \<in> set (getRecommendedTeams cu d).
       team.truncate t \<in> snd ` set (teams d)
     \<and> team_ownerId t \<noteq> user_id cu
     \<and> user_id cu \<notin> user_id ` set (team_members t)
     \<and> score t > 0
     \<and> score t = 2 * card (set (user_skills cu) \<inter> set (team_skills t))
                 + card (set (user_interests cu) \<inter> set (team_interests t))
     \<and> set (commonSkills t) = set (user_skills cu) \<inter> set (team_skills t)
     \<and> set (commonInterests t) = set (user_interests cu) \<inter> set (team_interests t))
   \<and> sorted_wrt (\<lambda>a b. score a \<ge> score b) (getRecommendedTeams cu d)
   \<and> (\<forall>k>0. filter (\<lambda>t. score t = k) (getRecommendedTeams cu d)
              = filter (\<lambda>t. score t = k) (map (scoreTeam cu) (allTeams cu d)))"
proof (intro conjI ballI allI impI)
  fix t assume "t \<in> set (getRecommendedTeams cu d)"
  then obtain t0 where t0: "t0 \<in> set (allTeams cu d)" and t: "t = scoreTeam cu t0"
    and pos: "score t > 0"
    by (auto simp: set_getRecommendedTeams)
  show "team.truncate t \<in> snd ` set (teams d)"
    using allTeams_D(1) [OF t0] by (simp add: t scoreTeam_fields)
  show "team_ownerId t \<noteq> user_id cu"
    using allTeams_D(2) [OF t0] by (simp add: t scoreTeam_fields)
  show "user_id cu \<notin> user_id ` set (team_members t)"
    using allTeams_D(3) [OF t0] by (simp add: t scoreTeam_fields)
  show "score t > 0" by (rule pos)
  show "score t = 2 * card (set (user_skills cu) \<inter> set (team_skills t))
                 + card (set (user_interests cu) \<inter> set (team_interests t))"
    by (simp add: t scoreTeam_score scoreTeam_fields)
  show "set (commonSkills t) = set (user_skills cu) \<inter> set (team_skills t)"
    by (simp add: t scoreTeam_common scoreTeam_fields)
  show "set (commonInterests t) = set (user_interests cu) \<inter> set (team_interests t)"
    by (simp add: t scoreTeam_common scoreTeam_fields)
next
  show "sorted_wrt (\<lambda>a b. score a \<ge> score b) (getRecommendedTeams cu d)"
    by (rule sorted_getRecommendedTeams)
next
  fix k :: nat assume "k > 0"
  then show "filter (\<lambda>t. score t = k) (getRecommendedTeams cu d)
              = filter (\<lambda>t. score t = k) (map (scoreTeam cu) (allTeams cu d))"
    by (rule stable_getRecommendedTeams)
qed

lemmas many_simps = db_many_def exampleTeam_def carol_def

theorem getRecommendedTeams_correct_witness:
  "map (\<lambda>t. (team_id t, score t)) (getRecommendedTeams carol db_many)
     = [(''t1'', 5), (''tA'', 1), (''tE'', 1)]
   \<and> list_all (\<lambda>t.
         team.truncate t \<in> snd ` set (teams db_many)
       \<and> team_ownerId t \<noteq> user_id carol
       \<and> user_id carol \<notin> user_id ` set (team_members t)
       \<and> score t > 0
       \<and> score t = 2 * card (set (user_skills carol) \<inter> set (team_skills t))
                   + card (set (user_interests carol) \<inter> set (team_interests t))
       \<and> set (commonSkills t) = set (user_skills carol) \<inter> set (team_skills t)
       \<and> set (commonInterests t) = set (user_interests carol) \<inter> set (team_interests t))
       (getRecommendedTeams carol db_many)
   \<and> sorted_wrt (\<lambda>a b. score a \<ge> score b) (getRecommendedTeams carol db_many)
   \<and> (0 :: nat) < 1
   \<and> map team_id (filter (\<lambda>t. score t = 1) (getRecommendedTeams carol db_many)) = [''tA'', ''tE'']
   \<and> map team_id (filter (\<lambda>t. score t = 1) (map (scoreTeam carol) (allTeams carol db_many)))
       = [''tA'', ''tE'']"
proof -
  have ev: "map (\<lambda>t. (team_id t, score t)) (getRecommendedTeams carol db_many)
     = [(''t1'', 5), (''tA'', 1), (''tE'', 1)]"
    by (simp add: getRecommendedTeams_def allTeams_def scoreTeam_def store_simps example_simps
        many_simps)
  have cand: "map team_id (filter (\<lambda>t. score t = 1) (map (scoreTeam carol) (allTeams carol db_many)))
       = [''tA'', ''tE'']"
    by (simp add: allTeams_def scoreTeam_def store_simps example_simps many_simps)
  note inst = getRecommendedTeams_correct [of carol db_many]
  note each = inst [THEN conjunct1, folded list_all_iff]
  note sorted = inst [THEN conjunct2, THEN conjunct1]
  have pos: "(0 :: nat) < 1" by simp
  note stable = inst [THEN conjunct2, THEN conjunct2, rule_format, OF pos]
  have tie: "map team_id (filter (\<lambda>t. score t = 1) (getRecommendedTeams carol db_many))
       = [''tA'', ''tE'']"
    by (simp only: stable cand)
  from ev each sorted pos tie cand show ?thesis
    by (intro conjI)
qed

section \<open>The owner is a member (C8)\<close>

lemma ownerIsMember_newTeam: "ownerIsMember (newTeam newId teamName owner)"
  by (simp add: ownerIsMember_def newTeam_def asMember_def)

lemma ownerIsMember_remove:
  "ownerIsMember t \<Longrightarrow> uid \<noteq> team_ownerId t \<Longrightarrow>
   ownerIsMember (t\<lparr>team_members := filter (\<lambda>m. user_id m \<noteq> uid) (team_members t),
                    team_skills := sk, team_interests := ints\<rparr>)"
  "ownerIsMember t \<Longrightarrow> uid \<noteq> team_ownerId t \<Longrightarrow>
   ownerIsMember (t\<lparr>team_members := filter (\<lambda>m. user_id m \<noteq> uid) (team_members t)\<rparr>)"
  by (auto simp: ownerIsMember_def)

lemma ownerIsMember_join:
  "ownerIsMember t \<Longrightarrow>
   ownerIsMember (t\<lparr>team_members := arrayUnion x (team_members t),
                    team_skills := sk, team_interests := ints\<rparr>)"
  by (auto simp: ownerIsMember_def arrayUnion_def)

lemma createTeam_ownerInvariant:
  "ownerInvariant d \<Longrightarrow> ownerInvariant (snd (createTeam newId teamName owner d))"
  using createTeam_teams [of newId teamName owner d]
  by (auto simp: ownerInvariant_def list_all_update ownerIsMember_newTeam)

lemma leaveTeam_ownerInvariant:
  assumes "ownerInvariant d"
  shows "ownerInvariant (snd (leaveTeam u teamId d))"
  using leaveTeam_teams [of u teamId d] assms
  by (auto simp: ownerInvariant_def list_all_delete
           intro!: list_all_update ownerIsMember_remove dest: list_all_map_of)

lemma handleInvitation_ownerInvariant:
  assumes "ownerInvariant d"
  shows "ownerInvariant (snd (handleInvitation invitationId accepted u d))"
  using handleInvitation_teams [of invitationId accepted u d] assms
  by (auto simp: ownerInvariant_def intro!: list_all_update ownerIsMember_join dest: list_all_map_of)

lemma deleteUserAccount_ownerInvariant:
  assumes "ownerInvariant d"
    and flag: "\<forall>teamId t. user_teamId u = TeamRef teamId \<and> getDoc (teams d) teamId = Some t
           \<and> user_id u = team_ownerId t \<longrightarrow> user_isTeamOwner u = Some True"
  shows "ownerInvariant (snd (deleteUserAccount u d))"
proof -
  from deleteUserAccount_teams [of u d]
  consider (same) "teams (snd (deleteUserAccount u d)) = teams d"
    | (del) teamId where "teams (snd (deleteUserAccount u d)) = AList.delete teamId (teams d)"
    | (upd) teamId t where "user_teamId u = TeamRef teamId" "map_of (teams d) teamId = Some t"
        "user_isTeamOwner u \<noteq> Some True"
        "teams (snd (deleteUserAccount u d)) =
            AList.update teamId
              (t\<lparr>team_members := filter (\<lambda>m. user_id m \<noteq> user_id u) (team_members t)\<rparr>) (teams d)"
    by blast
  then show ?thesis
  proof cases
    case same
    with assms(1) show ?thesis by (simp add: ownerInvariant_def)
  next
    case del
    with assms(1) show ?thesis by (simp add: ownerInvariant_def list_all_delete)
  next
    case upd
    from upd(1,2,3) flag have ne: "user_id u \<noteq> team_ownerId t"
      by (auto simp: getDoc_def)
    have "ownerIsMember t"
      using assms(1) upd(2) by (auto simp: ownerInvariant_def dest: list_all_map_of)
    then have "ownerIsMember
        (t\<lparr>team_members := filter (\<lambda>m. user_id m \<noteq> user_id u) (team_members t)\<rparr>)"
      using ne by (rule ownerIsMember_remove(2))
    with assms(1) upd(4) show ?thesis
      by (simp add: ownerInvariant_def list_all_update)
  qed
qed

text \<open>
  Where the invariant is kept: if the owner of every stored team is one of its members,
  the same holds after \<open>createTeam\<close>, after \<open>leaveTeam\<close> and after \<open>handleInvitation\<close>,
  whatever their arguments and outcome, and after \<open>deleteUserAccount\<close> when the profile
  it is given carries the \<open>isTeamOwner\<close> flag if the user owns the team the profile
  refers to.
\<close>

lemma owner_invariant_preserved:
  assumes "ownerInvariant d"
  shows "ownerInvariant (snd (createTeam newId teamName owner d))
     \<and> ownerInvariant (snd (leaveTeam leaver teamId d))
     \<and> ownerInvariant (snd (handleInvitation invitationId accepted invitee d))
     \<and> ((\<forall>tid t. user_teamId u = TeamRef tid \<and> getDoc (teams d) tid = Some t
             \<and> user_id u = team_ownerId t \<longrightarrow> user_isTeamOwner u = Some True)
          \<longrightarrow> ownerInvariant (snd (deleteUserAccount u d)))"
  using assms
  by (simp add: createTeam_ownerInvariant leaveTeam_ownerInvariant handleInvitation_ownerInvariant
      deleteUserAccount_ownerInvariant)

text \<open>The invariant holds in every store of the run up to \<open>s10\<close>.\<close>

lemma chain_ownerInvariant:
  "ownerInvariant s0" "ownerInvariant s1" "ownerInvariant s2" "ownerInvariant s3"
  "ownerInvariant s4" "ownerInvariant s5" "ownerInvariant s6" "ownerInvariant s7"
  "ownerInvariant s8" "ownerInvariant s9" "ownerInvariant s10"
proof -
  show 0: "ownerInvariant s0"
    by (simp add: ownerInvariant_def s0_def)
  then show 1: "ownerInvariant s1" unfolding s1_def by (rule createTeam_ownerInvariant)
  then show 2: "ownerInvariant s2"
    by (simp add: s2_def sendInvitation_def ownerInvariant_def)
  then show 3: "ownerInvariant s3" unfolding s3_def by (rule createTeam_ownerInvariant)
  then show 4: "ownerInvariant s4"
    by (simp add: s4_def sendInvitation_def ownerInvariant_def)
  then show 5: "ownerInvariant s5" unfolding s5_def by (rule createTeam_ownerInvariant)
  then show 6: "ownerInvariant s6" unfolding s6_def by (rule handleInvitation_ownerInvariant)
  then show 7: "ownerInvariant s7" unfolding s7_def by (rule handleInvitation_ownerInvariant)
  then show 8: "ownerInvariant s8" unfolding s8_def by (rule leaveTeam_ownerInvariant)
  then show 9: "ownerInvariant s9"
    by (simp add: s9_def sendInvitation_def ownerInvariant_def)
  then show "ownerInvariant s10" unfolding s10_def by (rule handleInvitation_ownerInvariant)
qed

text \<open>
  C8. After every operation the owner of a team is to be one of its members. Account
  deletion breaks this. It takes its member-removal branch whenever the profile lacks
  the \<open>isTeamOwner\<close> flag, without looking at the team's owner id. In \<open>s10\<close>, reached by
  ten calls of the service on stored profiles, Alice owns Alpha and her stored profile
  refers to Alpha with the flag \<open>false\<close> (leaving Delta cleared it, and accepting
  Carol's invitation did not set it). Every team of \<open>s10\<close> has its owner among its
  members. Deleting Alice's account succeeds and filters her out of Alpha, which is left
  with owner alice and the single member carol. \<open>leaveTeam\<close> rejects the same profile
  on the same store with the owner's error.
\<close>

theorem deleteUserAccount_removes_owner:
  "getDoc (users s10) ''alice'' = Some aliceStale
   \<and> user_teamId aliceStale = TeamRef ''t1''
   \<and> user_isTeamOwner aliceStale = Some False
   \<and> ownerInvariant s10
   \<and> map_option (\<lambda>t. (team_ownerId t, map user_id (team_members t))) (getDoc (teams s10) ''t1'')
       = Some (''alice'', [''alice'', ''carol'', ''alice''])
   \<and> fst (deleteUserAccount aliceStale s10) = Inr ()
   \<and> map_option (\<lambda>t. (team_ownerId t, map user_id (team_members t)))
        (getDoc (teams (snd (deleteUserAccount aliceStale s10))) ''t1'')
       = Some (''alice'', [''carol''])
   \<and> \<not> ownerInvariant (snd (deleteUserAccount aliceStale s10))
   \<and> leaveTeam aliceStale ''t1'' s10 = (Inl OwnerMustTransferBeforeLeaving, s10)"
  by (simp add: deleteUserAccount_def ownerInvariant_def ownerIsMember_def chain_simps
      store_simps example_simps)

section \<open>Pending invitations (C9)\<close>

lemma existingInvites_empty_iff:
  "existingInvites d teamId toUserId = [] \<longleftrightarrow> (teamId, toUserId) \<notin> set (pendingPairs d)"
  by (auto simp: existingInvites_def pendingPairs_def filter_empty_conv image_iff)

lemma distinct_pairs_delete:
  "distinct (map f (filter P xs)) \<Longrightarrow> distinct (map f (filter P (AList.delete k xs)))"
  by (induction xs) (auto simp: AList.delete_eq)

lemma distinct_pairs_update:
  assumes "distinct (map f (filter P xs))"
    and "\<forall>x \<in> set (filter P xs). f x \<noteq> f (k, v)"
  shows "distinct (map f (filter P (AList.update k v xs)))"
  using assms
proof (induction xs)
  case Nil
  then show ?case by simp
next
  case (Cons x xs)
  obtain k' v' where x: "x = (k', v')" by (cases x)
  show ?case
  proof (cases "k' = k")
    case True
    have d: "distinct (map f (filter P xs))"
      using Cons.prems(1) by (simp split: if_splits)
    have "\<forall>y \<in> set (filter P xs). f y \<noteq> f (k, v)"
      using Cons.prems(2) by (simp split: if_splits)
    then have "f (k, v) \<notin> f ` set (filter P xs)" by force
    with d True show ?thesis by (simp add: x)
  next
    case False
    have ih: "distinct (map f (filter P (AList.update k v xs)))"
      using Cons.IH Cons.prems by (auto split: if_splits)
    have sub: "set (filter P (AList.update k v xs)) \<subseteq> insert (k, v) (set (filter P xs))"
      using set_update_subset [of k v xs] by auto
    show ?thesis
    proof (cases "P x")
      case True
      have "f x \<notin> f ` set (filter P (AList.update k v xs))"
      proof
        assume "f x \<in> f ` set (filter P (AList.update k v xs))"
        then obtain y where y: "y \<in> set (filter P (AList.update k v xs))" "f x = f y" by auto
        from y(1) sub have "y = (k, v) \<or> y \<in> set (filter P xs)" by auto
        then show False
        proof
          assume "y = (k, v)"
          with y(2) Cons.prems(2) True show False by auto
        next
          assume "y \<in> set (filter P xs)"
          with y(2) Cons.prems(1) True show False by auto
        qed
      qed
      with ih True False show ?thesis by (simp add: x)
    next
      case False
      with ih \<open>k' \<noteq> k\<close> show ?thesis by (simp add: x)
    qed
  qed
qed

lemma apply_write_uniquePending:
  "apply_write w d = Some d' \<Longrightarrow> uniquePending d \<Longrightarrow> uniquePending d'"
  by (cases w)
     (auto simp: uniquePending_def pendingPairs_def deleteDoc_def distinct_pairs_delete
           split: option.splits)

lemma apply_writes_uniquePending:
  "apply_writes ws d = Some d' \<Longrightarrow> uniquePending d \<Longrightarrow> uniquePending d'"
proof (induction ws arbitrary: d)
  case Nil
  then show ?case by simp
next
  case (Cons w ws)
  then show ?case by (auto split: option.splits dest: apply_write_uniquePending)
qed

lemma commit_uniquePending: "uniquePending d \<Longrightarrow> uniquePending (snd (commit ws d))"
  by (auto simp: commit_def split: option.splits dest: apply_writes_uniquePending)

lemma createTeam_uniquePending:
  "uniquePending d \<Longrightarrow> uniquePending (snd (createTeam newId teamName owner d))"
  using commit_uniquePending
  by (simp add: createTeam_def Let_def split: prod.splits sum.splits) (metis snd_conv)

lemma leaveTeam_uniquePending:
  "uniquePending d \<Longrightarrow> uniquePending (snd (leaveTeam u teamId d))"
  by (auto simp: leaveTeam_def Let_def uniquePending_def pendingPairs_def
        commit_uniquePending [unfolded uniquePending_def pendingPairs_def]
      split: option.splits)

lemma sendInvitation_uniquePending:
  assumes "uniquePending d"
  shows "uniquePending (snd (sendInvitation newId now t fromUser toUser d))"
proof (cases "existingInvites d (team_id t) (user_id toUser) = []")
  case False
  with assms show ?thesis by (simp add: sendInvitation_def)
next
  case True
  let ?f = "\<lambda>(k, i). (inv_teamId i, inv_toUserId i)"
  let ?P = "\<lambda>(k :: string, i). inv_status i = Pending"
  let ?new = "\<lparr>inv_teamId = team_id t, inv_teamName = team_name t,
            inv_fromUser = \<lparr>from_id = user_id fromUser, from_name = user_name fromUser\<rparr>,
            inv_toUserId = user_id toUser, inv_status = Pending, inv_createdAt = now\<rparr>"
  from True have notin: "(team_id t, user_id toUser) \<notin> set (pendingPairs d)"
    by (simp add: existingInvites_empty_iff)
  have fresh: "\<forall>x \<in> set (filter ?P (invitations d)). ?f x \<noteq> ?f (newId, ?new)"
  proof
    fix x assume "x \<in> set (filter ?P (invitations d))"
    then have "?f x \<in> ?f ` set (filter ?P (invitations d))"
      by (rule imageI)
    then have "?f x \<in> set (pendingPairs d)"
      unfolding pendingPairs_def set_map .
    with notin show "?f x \<noteq> ?f (newId, ?new)" by auto
  qed
  have "distinct (map ?f (filter ?P (invitations d)))"
    using assms by (simp add: uniquePending_def pendingPairs_def)
  then have "distinct (map ?f (filter ?P (AList.update newId ?new (invitations d))))"
    using fresh by (rule distinct_pairs_update)
  with True show ?thesis
    by (simp add: sendInvitation_def uniquePending_def pendingPairs_def setDoc_def)
qed

lemma handleInvitation_uniquePending:
  "uniquePending d \<Longrightarrow> uniquePending (snd (handleInvitation invitationId accepted u d))"
  by (simp add: handleInvitation_def Let_def commit_uniquePending split: option.splits)

lemma deleteUserAccount_uniquePending:
  "uniquePending d \<Longrightarrow> uniquePending (snd (deleteUserAccount u d))"
  by (simp add: uniquePending_def pendingPairs_def deleteUserAccount_invitations)

lemma reachable_uniquePending: "reachable d \<Longrightarrow> uniquePending d"
proof (induction rule: reachable.induct)
  case r_empty
  show ?case by (simp add: uniquePending_def pendingPairs_def emptyDb_def)
next
  case (r_other d d')
  then show ?case by (simp add: uniquePending_def pendingPairs_def)
next
  case (r_createTeam d newId teamName owner)
  then show ?case by (simp add: createTeam_uniquePending)
next
  case (r_leaveTeam d u teamId)
  then show ?case by (simp add: leaveTeam_uniquePending)
next
  case (r_sendInvitation d newId now t fromUser toUser)
  then show ?case by (simp add: sendInvitation_uniquePending)
next
  case (r_handleInvitation d invitationId accepted u)
  then show ?case by (simp add: handleInvitation_uniquePending)
next
  case (r_deleteUserAccount d u)
  then show ?case by (simp add: deleteUserAccount_uniquePending)
qed

lemma distinct_filter_eq_le1: "distinct xs \<Longrightarrow> length (filter (\<lambda>x. x = y) xs) \<le> 1"
  by (induction xs) (auto simp: filter_empty_conv)

text \<open>
  C9. \<open>sendInvitation\<close> fails and leaves the store unchanged when the store holds a
  pending invitation of the team to the recipient; when it holds none, whatever other
  invitations it holds, and given the fresh document id that \<^verbatim>\<open>addDoc\<close> generates, it
  adds exactly one invitation, pending, with the team's name and the sender's id and name
  as they are at that moment. In every store that sequential execution reaches, each pair
  of team and recipient has at most one pending invitation.
\<close>

theorem sendInvitation_at_most_one_pending:
  "((\<exists>(k, i) \<in> set (invitations d).
        inv_teamId i = team_id t \<and> inv_toUserId i = user_id toUser \<and> inv_status i = Pending)
      \<longrightarrow> sendInvitation newId now t fromUser toUser d = (Inl InvitationAlreadyExists, d))
   \<and> (\<not> (\<exists>(k, i) \<in> set (invitations d).
        inv_teamId i = team_id t \<and> inv_toUserId i = user_id toUser \<and> inv_status i = Pending)
       \<and> newId \<notin> fst ` set (invitations d)
      \<longrightarrow> sendInvitation newId now t fromUser toUser d =
            (Inr (), d\<lparr>invitations := invitations d @
               [(newId, \<lparr>inv_teamId = team_id t, inv_teamName = team_name t,
                  inv_fromUser = \<lparr>from_id = user_id fromUser, from_name = user_name fromUser\<rparr>,
                  inv_toUserId = user_id toUser, inv_status = Pending, inv_createdAt = now\<rparr>)]\<rparr>))
   \<and> (reachable d \<longrightarrow>
        (\<forall>teamId toUserId.
           length (filter (\<lambda>(k, i). inv_teamId i = teamId \<and> inv_toUserId i = toUserId
                                   \<and> inv_status i = Pending) (invitations d)) \<le> 1))"
proof (intro conjI impI allI)
  assume "\<exists>(k, i) \<in> set (invitations d).
        inv_teamId i = team_id t \<and> inv_toUserId i = user_id toUser \<and> inv_status i = Pending"
  then have "existingInvites d (team_id t) (user_id toUser) \<noteq> []"
    by (auto simp: existingInvites_def filter_empty_conv)
  then show "sendInvitation newId now t fromUser toUser d = (Inl InvitationAlreadyExists, d)"
    by (simp add: sendInvitation_def)
next
  assume a: "\<not> (\<exists>(k, i) \<in> set (invitations d).
        inv_teamId i = team_id t \<and> inv_toUserId i = user_id toUser \<and> inv_status i = Pending)
       \<and> newId \<notin> fst ` set (invitations d)"
  then have "existingInvites d (team_id t) (user_id toUser) = []"
    by (auto simp: existingInvites_def filter_empty_conv)
  with a show "sendInvitation newId now t fromUser toUser d =
            (Inr (), d\<lparr>invitations := invitations d @
               [(newId, \<lparr>inv_teamId = team_id t, inv_teamName = team_name t,
                  inv_fromUser = \<lparr>from_id = user_id fromUser, from_name = user_name fromUser\<rparr>,
                  inv_toUserId = user_id toUser, inv_status = Pending, inv_createdAt = now\<rparr>)]\<rparr>)"
    by (simp add: sendInvitation_def setDoc_def update_fresh)
next
  fix teamId toUserId
  assume "reachable d"
  then have "distinct (pendingPairs d)"
    using reachable_uniquePending by (simp add: uniquePending_def)
  then have "length (filter (\<lambda>x. x = (teamId, toUserId)) (pendingPairs d)) \<le> 1"
    by (rule distinct_filter_eq_le1)
  moreover have "length (filter (\<lambda>x. x = (teamId, toUserId)) (pendingPairs d))
      = length (filter (\<lambda>(k, i). inv_teamId i = teamId \<and> inv_toUserId i = toUserId
                                   \<and> inv_status i = Pending) (invitations d))"
    unfolding pendingPairs_def filter_map length_map filter_filter
    by (rule arg_cong [where f = length], rule filter_cong) auto
  ultimately show "length (filter (\<lambda>(k, i). inv_teamId i = teamId \<and> inv_toUserId i = toUserId
                                   \<and> inv_status i = Pending) (invitations d)) \<le> 1"
    by simp
qed

lemma scenario_invite_carol:
  "sendInvitation ''i2'' 1 alpha aliceOwner carol db_invited = (Inr (), db_two_invited)"
  by (simp add: sendInvitation_def existingInvites_def db_two_invited_def inviteCarol_def
      carol_def store_simps example_simps)

lemma reachable_db_two_invited: "reachable db_invited" "reachable db_two_invited"
proof -
  have "reachable db_init"
    by (rule r_other [OF r_empty]) (simp add: db_init_def emptyDb_def)
  then have "reachable (snd (createTeam ''t1'' ''Alpha'' alice db_init))"
    by (rule r_createTeam)
  then have "reachable db_alpha"
    by (simp add: scenario_create)
  then have "reachable (snd (sendInvitation ''i1'' 0 alpha aliceOwner bob db_alpha))"
    by (rule r_sendInvitation)
  then show 1: "reachable db_invited"
    by (simp add: scenario_invite)
  then have "reachable (snd (sendInvitation ''i2'' 1 alpha aliceOwner carol db_invited))"
    by (rule r_sendInvitation)
  then show "reachable db_two_invited"
    by (simp only: scenario_invite_carol snd_conv)
qed

theorem sendInvitation_at_most_one_pending_witness:
  "(\<exists>(k, i) \<in> set (invitations db_two_invited).
        inv_teamId i = team_id alpha \<and> inv_toUserId i = user_id bob \<and> inv_status i = Pending)
   \<and> sendInvitation ''i3'' 2 alpha aliceOwner bob db_two_invited
       = (Inl InvitationAlreadyExists, db_two_invited)
   \<and> invitations db_invited = [(''i1'', invite1)]
   \<and> \<not> (\<exists>(k, i) \<in> set (invitations db_invited).
        inv_teamId i = team_id alpha \<and> inv_toUserId i = user_id carol \<and> inv_status i = Pending)
   \<and> ''i2'' \<notin> fst ` set (invitations db_invited)
   \<and> sendInvitation ''i2'' 1 alpha aliceOwner carol db_invited =
       (Inr (), db_invited\<lparr>invitations := [(''i1'', invite1), (''i2'', inviteCarol)]\<rparr>)
   \<and> reachable db_two_invited
   \<and> (\<forall>teamId toUserId.
         length (filter (\<lambda>(k, i). inv_teamId i = teamId \<and> inv_toUserId i = toUserId
                                 \<and> inv_status i = Pending) (invitations db_two_invited)) \<le> 1)
   \<and> length (filter (\<lambda>(k, i). inv_teamId i = ''t1'' \<and> inv_toUserId i = ''bob''
                               \<and> inv_status i = Pending) (invitations db_two_invited)) = 1
   \<and> length (filter (\<lambda>(k, i). inv_teamId i = ''t1'' \<and> inv_toUserId i = ''carol''
                               \<and> inv_status i = Pending) (invitations db_two_invited)) = 1"
proof -
  have a: "\<exists>(k, i) \<in> set (invitations db_two_invited).
        inv_teamId i = team_id alpha \<and> inv_toUserId i = user_id bob \<and> inv_status i = Pending"
    by (simp add: db_two_invited_def inviteCarol_def store_simps example_simps)
  have inv: "invitations db_invited = [(''i1'', invite1)]"
    by (simp add: db_invited_def)
  have b: "\<not> (\<exists>(k, i) \<in> set (invitations db_invited).
        inv_teamId i = team_id alpha \<and> inv_toUserId i = user_id carol \<and> inv_status i = Pending)
       \<and> ''i2'' \<notin> fst ` set (invitations db_invited)"
    by (simp add: carol_def store_simps example_simps)
  have c: "length (filter (\<lambda>(k, i). inv_teamId i = ''t1'' \<and> inv_toUserId i = ''bob''
                               \<and> inv_status i = Pending) (invitations db_two_invited)) = 1"
     "length (filter (\<lambda>(k, i). inv_teamId i = ''t1'' \<and> inv_toUserId i = ''carol''
                               \<and> inv_status i = Pending) (invitations db_two_invited)) = 1"
    by (simp_all add: db_two_invited_def inviteCarol_def store_simps example_simps)
  have e: "db_invited\<lparr>invitations := invitations db_invited @
               [(''i2'', \<lparr>inv_teamId = team_id alpha, inv_teamName = team_name alpha,
                  inv_fromUser = \<lparr>from_id = user_id aliceOwner, from_name = user_name aliceOwner\<rparr>,
                  inv_toUserId = user_id carol, inv_status = Pending, inv_createdAt = 1\<rparr>)]\<rparr>
        = db_invited\<lparr>invitations := [(''i1'', invite1), (''i2'', inviteCarol)]\<rparr>"
    by (simp add: inviteCarol_def carol_def store_simps example_simps)
  note first = sendInvitation_at_most_one_pending
    [where d = db_two_invited and t = alpha and toUser = bob and newId = "''i3''" and now = 2
       and fromUser = aliceOwner, THEN conjunct1, rule_format, OF a]
  note second = sendInvitation_at_most_one_pending
    [where d = db_invited and t = alpha and toUser = carol and newId = "''i2''" and now = 1
       and fromUser = aliceOwner, THEN conjunct2, THEN conjunct1, rule_format, OF b]
  note third = sendInvitation_at_most_one_pending
    [where d = db_two_invited, THEN conjunct2, THEN conjunct2, rule_format,
     OF reachable_db_two_invited(2)]
  from b have b1: "\<not> (\<exists>(k, i) \<in> set (invitations db_invited).
        inv_teamId i = team_id alpha \<and> inv_toUserId i = user_id carol \<and> inv_status i = Pending)"
    and b2: "''i2'' \<notin> fst ` set (invitations db_invited)" by simp_all
  have third': "\<forall>teamId toUserId.
         length (filter (\<lambda>(k, i). inv_teamId i = teamId \<and> inv_toUserId i = toUserId
                                 \<and> inv_status i = Pending) (invitations db_two_invited)) \<le> 1"
    using third by simp
  from a first inv b1 b2 second [unfolded e] reachable_db_two_invited(2) third' c show ?thesis
    by (intro conjI)
qed

section \<open>Searching users (C10)\<close>

text \<open>
  C10. For a signed-in caller and any filters, \<open>searchUsers\<close> returns a list in which no
  profile has the caller's id; so the caller's stored profile, which carries that id since
  sign-up, is not in it.
\<close>

theorem searchUsers_excludes_caller:
  "\<exists>us. searchUsers (Some uid) f d = Inr us
     \<and> (\<forall>u \<in> set us. user_id u \<noteq> uid)
     \<and> (\<forall>p. getDoc (users d) uid = Some p \<and> user_id p = uid \<longrightarrow> p \<notin> set us)"
  by (auto simp: searchUsers_def searchQuery_def Let_def)

theorem searchUsers_excludes_caller_witness:
  "searchUsers (Some ''alice'') \<lparr>f_name = Some ''BO'', f_skill = Some ''Python'',
       f_interest = Some ''Any Interest'', f_availability = Some ''Unavailable''\<rparr> db_joined
     = Inr [bobMember]
   \<and> searchUsers (Some ''alice'') \<lparr>f_name = None, f_skill = None, f_interest = None,
       f_availability = None\<rparr> db_joined = Inr [bobMember]
   \<and> getDoc (users db_joined) ''alice'' = Some aliceOwner \<and> user_id aliceOwner = ''alice''
   \<and> user_id bobMember \<noteq> ''alice''
   \<and> aliceOwner \<notin> set [bobMember]"
proof -
  let ?f = "\<lparr>f_name = Some ''BO'', f_skill = Some ''Python'',
       f_interest = Some ''Any Interest'', f_availability = Some ''Unavailable''\<rparr>"
  have ev: "searchUsers (Some ''alice'') ?f db_joined = Inr [bobMember]"
    by (simp add: searchUsers_def searchQuery_def toLowerCase_def toLowerChar_def
        str_includes_def store_simps example_simps)
  have ev2: "searchUsers (Some ''alice'') \<lparr>f_name = None, f_skill = None, f_interest = None,
       f_availability = None\<rparr> db_joined = Inr [bobMember]"
    by (simp add: searchUsers_def searchQuery_def store_simps example_simps)
  have me: "getDoc (users db_joined) ''alice'' = Some aliceOwner \<and> user_id aliceOwner = ''alice''"
    by (simp add: store_simps example_simps)
  from searchUsers_excludes_caller [of "''alice''" ?f db_joined] ev me
  have "(\<forall>u \<in> set [bobMember]. user_id u \<noteq> ''alice'') \<and> aliceOwner \<notin> set [bobMember]"
    by (elim exE conjE) (simp only: sum.inject, blast)
  then have "user_id bobMember \<noteq> ''alice''" "aliceOwner \<notin> set [bobMember]"
    by simp_all
  with ev ev2 me show ?thesis by (intro conjI) simp_all
qed

end
